theory Spec2Isabelle
  imports Main
begin

section \<open>Strings of the runtime\<close>

text \<open>
  Strings are lists of 8-bit characters, read as the code units U+0000 to U+00FF. The
  string methods the source calls are written out here on that range.
\<close>

text \<open>\<^verbatim>\<open>s.includes(sub)\<close>: \<open>sub\<close> occurs in \<open>s\<close> as a contiguous block.\<close>

fun starts_with :: "string \<Rightarrow> string \<Rightarrow> bool" where
  "starts_with s [] = True"
| "starts_with [] (c # cs) = False"
| "starts_with (d # ds) (c # cs) = (d = c \<and> starts_with ds cs)"

fun includes_str :: "string \<Rightarrow> string \<Rightarrow> bool" where
  "includes_str [] sub = (sub = [])"
| "includes_str (c # cs) sub = (starts_with (c # cs) sub \<or> includes_str cs sub)"

text \<open>\<^verbatim>\<open>s.toLowerCase()\<close>: A to Z and the upper-case letters of U+00C0 to U+00DE
  (the multiplication sign U+00D7 apart) move up by 32.\<close>

definition lower_char :: "char \<Rightarrow> char" where
  "lower_char c =
     (let n = (of_char c :: nat)
      in if (65 \<le> n \<and> n \<le> 90) \<or> (192 \<le> n \<and> n \<le> 222 \<and> n \<noteq> 215)
         then char_of (n + 32) else c)"

definition toLowerCase :: "string \<Rightarrow> string" where
  "toLowerCase s = map lower_char s"

text \<open>\<^verbatim>\<open>s.trim()\<close>: white space and line terminators are dropped at both ends; in the
  8-bit range these are tab, line feed, vertical tab, form feed, carriage return, space
  and the no-break space U+00A0.\<close>

definition is_space :: "char \<Rightarrow> bool" where
  "is_space c = ((of_char c :: nat) \<in> {9, 10, 11, 12, 13, 32, 160})"

definition trim :: "string \<Rightarrow> string" where
  "trim s = rev (dropWhile is_space (rev (dropWhile is_space s)))"

text \<open>\<^verbatim>\<open>s.substring(0, n)\<close>.\<close>

definition substring0 :: "string \<Rightarrow> nat \<Rightarrow> string" where
  "substring0 s n = take n s"

text \<open>\<^verbatim>\<open>s.split(' ')\<close>: the pieces between single spaces; never an empty array.\<close>

fun split_space :: "string \<Rightarrow> string list" where
  "split_space [] = [[]]"
| "split_space (c # cs) =
     (if c = CHR '' '' then [] # split_space cs
      else (case split_space cs of
              [] \<Rightarrow> [[c]]
            | p # ps \<Rightarrow> (c # p) # ps))"

text \<open>A number inside a template literal: decimal digits, with a minus sign below zero.\<close>

definition digit_char :: "nat \<Rightarrow> char" where
  "digit_char d = char_of (48 + d)"

fun string_of_nat :: "nat \<Rightarrow> string" where
  "string_of_nat n =
     (if n < 10 then [digit_char n]
      else string_of_nat (n div 10) @ [digit_char (n mod 10)])"

declare string_of_nat.simps [simp del]

definition string_of_int :: "int \<Rightarrow> string" where
  "string_of_int i = (if i < 0 then CHR ''-'' # string_of_nat (nat (- i)) else string_of_nat (nat i))"

text \<open>An optional string inside a template literal, and as a condition: \<^verbatim>\<open>undefined\<close>
  prints as the word, and both \<^verbatim>\<open>undefined\<close> and the empty string are falsy.\<close>

definition template_opt :: "string option \<Rightarrow> string" where
  "template_opt m = (case m of None \<Rightarrow> ''undefined'' | Some s \<Rightarrow> s)"

definition truthy :: "string option \<Rightarrow> bool" where
  "truthy m = (case m of None \<Rightarrow> False | Some s \<Rightarrow> s \<noteq> [])"

definition or_default :: "string option \<Rightarrow> string \<Rightarrow> string" where
  "or_default m d = (case m of None \<Rightarrow> d | Some s \<Rightarrow> if s = [] then d else s)"


definition newline :: string where
  "newline = [CHR 10]"


section \<open>The data model\<close>

record TaskEvaluation =
  ev_type :: string
  ev_command :: "string option"
  check_prompt :: "string option"

record Task =
  name :: string
  done_flag :: "bool option"
  prompt :: string
  evaluation :: "TaskEvaluation option"

record AiderConfig =
  model :: string
  architect_mode :: bool
  editable_files :: "string list"
  readonly_files :: "string list"
  retries :: int
  test_command :: "string option"

record Spec =
  aider_config :: AiderConfig
  objective :: string
  implementation_details :: string
  tasks :: "Task list"

record TaskResult =
  success :: bool
  attempts :: nat
  error :: "string option"
  output_text :: "string option"

text \<open>The \<^verbatim>\<open>{ success, error? }\<close> object an evaluation returns.\<close>

record EvalResult =
  eval_success :: bool
  eval_error :: "string option"


section \<open>The world outside the program\<close>

text \<open>
  The state the program changes: the working directory of the process, every process it
  has spawned (the argument vectors, oldest first), every prompt it has sent to the
  language model, and the regular files on the disk. What the program prints on the
  console is left out: no function reads it back. What spawned processes do to the
  disk shows in the answers of the collaborators below.
\<close>

record world =
  cwd :: string
  spawned :: "string list list"
  lm_prompts :: "string list"
  files :: "string \<rightharpoonup> string"

text \<open>What a spawned process reports once it has ended.\<close>

record proc_result =
  exitCode :: int
  stdout :: string
  stderr :: string

text \<open>
  A value thrown by a runtime call is kept as its \<^verbatim>\<open>message\<close> property: \<open>Some m\<close>
  for an Error object, \<open>None\<close> for a thrown value that has no message string (a
  \<^verbatim>\<open>catch\<close> binds whatever was thrown). Reading \<^verbatim>\<open>error.message\<close> of such a value
  gives \<^verbatim>\<open>undefined\<close>; calling a method on that raises a TypeError. A thrown
  \<^verbatim>\<open>null\<close> or \<^verbatim>\<open>undefined\<close> is not modelled.
\<close>

type_synonym thrown = "string option"

text \<open>A failed completion request: one that carries an HTTP response (status and the
  message of its error body), or any other thrown value.\<close>

datatype api_failure = HttpFailure int "string option" | OtherFailure thrown

text \<open>
  The collaborators, as functions of the world at the moment of the call: the completion
  endpoint, the process launcher, the file system's answers, and \<^verbatim>\<open>path.join\<close>.
\<close>

record env =
  api_key :: "string option"
  chat_completion :: "world \<Rightarrow> string \<Rightarrow> api_failure + string option"
  run_process :: "world \<Rightarrow> string list \<Rightarrow> thrown + proc_result"
  other_exists :: "world \<Rightarrow> string \<Rightarrow> bool"
  chdir_error :: "world \<Rightarrow> string \<Rightarrow> string option"
  join :: "string list \<Rightarrow> string"

text \<open>\<^verbatim>\<open>spawn(argv)\<close> with both pipes read and the exit awaited: the call is recorded,
  and either a value is thrown (by the launch or by a read, before anything of the
  report is used) or the process's report comes back.\<close>

definition spawn :: "env \<Rightarrow> string list \<Rightarrow> world \<Rightarrow> (thrown + proc_result) \<times> world" where
  "spawn e argv w = (run_process e w argv, w\<lparr>spawned := spawned w @ [argv]\<rparr>)"

text \<open>\<^verbatim>\<open>existsSync(p)\<close>: a regular file the model tracks, or anything else at that path.\<close>

definition existsSync :: "env \<Rightarrow> world \<Rightarrow> string \<Rightarrow> bool" where
  "existsSync e w p = (case files w p of Some c \<Rightarrow> True | None \<Rightarrow> other_exists e w p)"

text \<open>\<^verbatim>\<open>process.chdir(p)\<close>: throws an Error, or moves the process.\<close>

definition chdir :: "env \<Rightarrow> string \<Rightarrow> world \<Rightarrow> string + world" where
  "chdir e p w = (case chdir_error e w p of Some m \<Rightarrow> Inl m | None \<Rightarrow> Inr (w\<lparr>cwd := p\<rparr>))"


section \<open>utils.ts\<close>

definition queryLanguageModel :: "env \<Rightarrow> string \<Rightarrow> world \<Rightarrow> (string + string) \<times> world" where
  "queryLanguageModel e p w =
     (if \<not> truthy (api_key e)
      then (Inl ''LANGUAGE_MODEL_API_KEY environment variable not set'', w)
      else
        let w' = w\<lparr>lm_prompts := lm_prompts w @ [p]\<rparr> in
        (case chat_completion e w p of
           Inr content \<Rightarrow>
             (Inr (or_default content ''No response received from language model.''), w')
         | Inl (HttpFailure status msg) \<Rightarrow>
             (if status = 401
              then (Inl ''Invalid API key. Please check your LANGUAGE_MODEL_API_KEY environment variable.'', w')
              else if status = 429
              then (Inl ''API rate limit exceeded. Please try again later.'', w')
              else if status = 500
              then (Inl ''Language model API server error. Please try again later.'', w')
              else (Inl (''Language model API error: '' @ or_default msg ''Unknown error''), w'))
         | Inl (OtherFailure t) \<Rightarrow>
             (Inl (''Error querying language model: '' @ template_opt t), w')))"


section \<open>taskExecutor.ts: the judgment step\<close>

definition judgment_prompt :: "string \<Rightarrow> string \<Rightarrow> string" where
  "judgment_prompt checkPrompt commandOutput =
     checkPrompt @ newline @ newline @ ''Command output:'' @ newline @ commandOutput @
     newline @ newline @ ''Please respond with only '' @ [CHR 39] @ ''yes'' @ [CHR 39] @ '' or '' @ [CHR 39] @ ''no'' @ [CHR 39] @ ''.''"

text \<open>The reading of a reply that did arrive (the \<^verbatim>\<open>// Parse response\<close> block).\<close>

definition parse_response :: "string \<Rightarrow> EvalResult" where
  "parse_response response =
     (let normalizedResponse = trim (toLowerCase response) in
      if normalizedResponse \<noteq> ''yes'' \<and> normalizedResponse \<noteq> ''no'' then
        let ok = (includes_str normalizedResponse ''yes'' \<or>
                  includes_str normalizedResponse ''pass'' \<or>
                  includes_str normalizedResponse ''succeed'' \<or>
                  includes_str normalizedResponse ''correct'')
        in \<lparr>eval_success = ok,
            eval_error = (if ok then None
               else Some (''Language model evaluation could not confirm success. Response: '' @ [CHR 34] @
                          substring0 response 100 @ ''...'' @ [CHR 34]))\<rparr>
      else
        let ok = (normalizedResponse = ''yes'')
        in \<lparr>eval_success = ok,
            eval_error = (if ok then None else Some (''Language model evaluation returned '' @ [CHR 34] @ ''no'' @ [CHR 34]))\<rparr>)"

definition evaluateWithLanguageModel ::
  "env \<Rightarrow> string \<Rightarrow> string \<Rightarrow> world \<Rightarrow> EvalResult \<times> world" where
  "evaluateWithLanguageModel e checkPrompt commandOutput w =
     (case queryLanguageModel e (judgment_prompt checkPrompt commandOutput) w of
        (Inr response, w') \<Rightarrow> (parse_response response, w')
      | (Inl msg, w') \<Rightarrow>
          (\<lparr>eval_success = False,
            eval_error = Some (''Language model evaluation skipped due to API error: '' @ msg @
                               ''. Please review the task output manually.'')\<rparr>, w'))"


section \<open>taskExecutor.ts: evaluation\<close>

definition eval_ok :: EvalResult where
  "eval_ok = \<lparr>eval_success = True, eval_error = None\<rparr>"

definition eval_fail :: "string \<Rightarrow> EvalResult" where
  "eval_fail msg = \<lparr>eval_success = False, eval_error = Some msg\<rparr>"

text \<open>
  \<^verbatim>\<open>evaluateTask\<close>. A falsy test command or command (absent or empty) is refused
  before anything is spawned; a value thrown by the launcher is caught by the function's
  own handler. The argument vector is the whole result of \<^verbatim>\<open>split(' ')\<close>, which is
  never empty.
\<close>

definition evaluateTask :: "env \<Rightarrow> Spec \<Rightarrow> Task \<Rightarrow> string \<Rightarrow> world \<Rightarrow> EvalResult \<times> world" where
  "evaluateTask e spec task aiderOutput w =
     (case evaluation task of
        None \<Rightarrow> (eval_ok, w)
      | Some ev \<Rightarrow>
          if ev_type ev = ''test'' then
            (case test_command (aider_config spec) of
               None \<Rightarrow> (eval_fail ''Test command not specified in aider_config.test_command'', w)
             | Some testCommand \<Rightarrow>
                 if testCommand = []
                 then (eval_fail ''Test command not specified in aider_config.test_command'', w)
                 else
                   (case spawn e (split_space testCommand) w of
                      (Inl t, w') \<Rightarrow> (eval_fail (''Error in evaluation: '' @ template_opt t), w')
                    | (Inr r, w') \<Rightarrow>
                        if exitCode r \<noteq> 0
                        then (eval_fail (''Test command failed with exit code '' @
                                string_of_int (exitCode r) @ '': '' @ stderr r), w')
                        else (eval_ok, w')))
          else if ev_type ev = ''command'' then
            (case ev_command ev of
               None \<Rightarrow> (eval_fail ''Command not specified in task.evaluation.command'', w)
             | Some cmd \<Rightarrow>
                 if cmd = []
                 then (eval_fail ''Command not specified in task.evaluation.command'', w)
                 else
                   (case spawn e (split_space cmd) w of
                      (Inl t, w') \<Rightarrow> (eval_fail (''Error in evaluation: '' @ template_opt t), w')
                    | (Inr r, w') \<Rightarrow>
                        if exitCode r \<noteq> 0
                        then (eval_fail (''Command failed with exit code '' @
                                string_of_int (exitCode r) @ '': '' @ stderr r), w')
                        else
                          (case check_prompt ev of
                             None \<Rightarrow> (eval_ok, w')
                           | Some cp \<Rightarrow>
                               if cp = [] then (eval_ok, w')
                               else evaluateWithLanguageModel e cp (stdout r) w')))
          else (eval_fail (''Unknown evaluation type: '' @ ev_type ev), w))"


section \<open>vcsManager.ts\<close>

datatype vcs = Jj | Git

text \<open>The message of the TypeError the runtime raises when \<^verbatim>\<open>includes\<close> is called on
  the missing \<^verbatim>\<open>message\<close> of a thrown value.\<close>

definition type_error_message :: string where
  "type_error_message =
     ''undefined is not an object (evaluating '' @ [CHR 39] @ ''error.message.includes'' @ [CHR 39] @ '')''"

definition detectVC :: "env \<Rightarrow> world \<Rightarrow> vcs \<times> world" where
  "detectVC e w =
     (if existsSync e w ''.jj'' then (Jj, w)
      else
        (case spawn e [''jj'', ''status''] w of
           (Inl t, w') \<Rightarrow> (Git, w')
         | (Inr r, w') \<Rightarrow> if exitCode r = 0 then (Jj, w') else (Git, w')))"

text \<open>The body of the \<^verbatim>\<open>try\<close> of \<^verbatim>\<open>createBranch\<close>: the branch command, then the
  worktree command; \<open>Inl\<close> is the value thrown.\<close>

definition create_commands :: "env \<Rightarrow> vcs \<Rightarrow> string \<Rightarrow> string \<Rightarrow> world \<Rightarrow> (thrown + unit) \<times> world" where
  "create_commands e v spec_name worktreePath w =
     (let branchCmd = (case v of Jj \<Rightarrow> [''jj'', ''branch'', ''create'', spec_name]
                               | Git \<Rightarrow> [''git'', ''branch'', spec_name]);
          worktreeCmd = (case v of Jj \<Rightarrow> [''jj'', ''worktree'', ''add'', worktreePath, spec_name]
                                 | Git \<Rightarrow> [''git'', ''worktree'', ''add'', worktreePath, spec_name])
      in case spawn e branchCmd w of
           (Inl t, w1) \<Rightarrow> (Inl t, w1)
         | (Inr b, w1) \<Rightarrow>
             if exitCode b \<noteq> 0 \<and> \<not> includes_str (stderr b) ''already exists''
             then (Inl (Some (''Failed to create branch: '' @ stderr b)), w1)
             else
               (case spawn e worktreeCmd w1 of
                  (Inl t, w2) \<Rightarrow> (Inl t, w2)
                | (Inr r, w2) \<Rightarrow>
                    if exitCode r \<noteq> 0
                    then (Inl (Some (''Failed to create worktree: '' @ stderr r)), w2)
                    else (Inr (), w2)))"

text \<open>The \<^verbatim>\<open>catch\<close> of \<^verbatim>\<open>createBranch\<close>: the message of the Error it throws.\<close>

definition createBranch_catch :: "string \<Rightarrow> string \<Rightarrow> thrown \<Rightarrow> string" where
  "createBranch_catch spec_name worktreePath t =
     (case t of
        None \<Rightarrow> type_error_message
      | Some m \<Rightarrow>
          if includes_str m ''already exists''
          then ''Branch '' @ [CHR 39] @ spec_name @ [CHR 39] @
               '' already exists. Use a different name or clean up the existing branch first.''
          else if includes_str m ''not a git repository''
          then ''Failed to create branch: Not a git repository. Ensure you'' @ [CHR 39] @
               ''re in the root of a valid git repository.''
          else if includes_str m ''path already exists''
          then ''Worktree path '' @ [CHR 39] @ worktreePath @ [CHR 39] @
               '' already exists. Remove it manually or use a different spec name.''
          else if includes_str m ''Permission denied''
          then ''Permission denied when creating branch or worktree. Check your file system permissions.''
          else ''Error creating branch and worktree: '' @ m)"

definition createBranch :: "env \<Rightarrow> string \<Rightarrow> world \<Rightarrow> (string + string) \<times> world" where
  "createBranch e spec_name w =
     (case detectVC e w of
        (v, w1) \<Rightarrow>
          let worktreePath = join e [''..'', ''worktrees'', spec_name] in
          (case create_commands e v spec_name worktreePath w1 of
             (Inr u, w2) \<Rightarrow> (Inr worktreePath, w2)
           | (Inl t, w2) \<Rightarrow> (Inl (createBranch_catch spec_name worktreePath t), w2)))"


section \<open>taskExecutor.ts: one task\<close>

definition prepareTaskPrompt :: "Spec \<Rightarrow> Task \<Rightarrow> string" where
  "prepareTaskPrompt spec task =
     ''Objective:'' @ newline @ objective spec @ newline @ newline @
     ''Technical Notes:'' @ newline @ implementation_details spec @ newline @ newline @
     ''Task Prompt:'' @ newline @ prompt task"

text \<open>The argument vector handed to \<^verbatim>\<open>spawn\<close> for the coding agent.\<close>

definition aider_argv :: "Spec \<Rightarrow> string \<Rightarrow> string list" where
  "aider_argv spec p =
     [''aider'', ''--model'', model (aider_config spec)] @
     (if architect_mode (aider_config spec) then [''--architect''] else []) @
     (if editable_files (aider_config spec) \<noteq> []
      then ''--files'' # editable_files (aider_config spec) else []) @
     (if readonly_files (aider_config spec) \<noteq> []
      then ''--readonly'' # readonly_files (aider_config spec) else []) @
     [p]"

text \<open>The message recorded when the agent exits with a code other than 0.\<close>

definition exit_failure_message :: "proc_result \<Rightarrow> string" where
  "exit_failure_message r =
     (if includes_str (stderr r) ''command not found''
      then ''Aider is not installed or not in PATH. Please ensure Aider is installed and accessible.''
      else if includes_str (stderr r) ''API key''
      then ''Aider API key error: '' @ stderr r @ ''. Please check your API key configuration.''
      else if includes_str (stderr r) ''rate limit''
      then ''API rate limit exceeded: '' @ stderr r @ ''. Please try again later.''
      else if includes_str (stderr r) ''timeout''
      then ''Aider execution timed out: '' @ stderr r @
           ''. Consider simplifying the task or increasing timeout limits.''
      else ''Aider exited with code '' @ string_of_int (exitCode r) @ '': '' @ stderr r)"

text \<open>The handler of the \<^verbatim>\<open>try\<close> inside the loop, for a thrown Error with message \<open>m\<close>.\<close>

definition attempt_catch_message :: "string \<Rightarrow> string" where
  "attempt_catch_message m =
     (if includes_str m ''ENOENT''
      then ''Aider executable not found. Please ensure Aider is installed and in your PATH.''
      else if includes_str m ''EACCES''
      then ''Permission denied when executing Aider. Check file permissions.''
      else if includes_str m ''ETIMEDOUT''
      then ''Connection timed out when executing Aider. Check your network connection.''
      else ''Error executing Aider: '' @ m)"

text \<open>
  One turn of the retry loop, after \<^verbatim>\<open>attempts++\<close>. It gives the new
  \<^verbatim>\<open>(success, lastError, lastOutput)\<close>, or \<open>Inl\<close> the message of an error that leaves
  the loop: the handler reads \<^verbatim>\<open>error.message.includes\<close>, which raises a TypeError on
  a thrown value without a message.
\<close>

definition attempt ::
  "env \<Rightarrow> Spec \<Rightarrow> Task \<Rightarrow> string \<Rightarrow> string \<Rightarrow> string \<Rightarrow> world
     \<Rightarrow> (string + bool \<times> string \<times> string) \<times> world" where
  "attempt e spec task p lastError lastOutput w =
     (case spawn e (aider_argv spec p) w of
        (Inl None, w1) \<Rightarrow> (Inl type_error_message, w1)
      | (Inl (Some m), w1) \<Rightarrow> (Inr (False, attempt_catch_message m, lastOutput), w1)
      | (Inr r, w1) \<Rightarrow>
          if exitCode r \<noteq> 0 then (Inr (False, exit_failure_message r, stdout r), w1)
          else
            (case evaluation task of
               None \<Rightarrow> (Inr (True, lastError, stdout r), w1)
             | Some ev \<Rightarrow>
                 (case evaluateTask e spec task (stdout r) w1 of
                    (res, w2) \<Rightarrow>
                      if eval_success res then (Inr (True, lastError, stdout r), w2)
                      else (Inr (False,
                              or_default (eval_error res) ''Evaluation failed without specific error'',
                              stdout r), w2))))"

text \<open>
  The \<^verbatim>\<open>while (!success && attempts < maxRetries)\<close> loop. \<open>Inr\<close> is the state at a
  normal end; \<open>Inl\<close> is an escaping error, with the attempt count \<^verbatim>\<open>result.attempts\<close>
  already holds.
\<close>

function retry_loop ::
  "env \<Rightarrow> Spec \<Rightarrow> Task \<Rightarrow> string \<Rightarrow> bool \<Rightarrow> nat \<Rightarrow> string \<Rightarrow> string \<Rightarrow> world
     \<Rightarrow> (string \<times> nat + bool \<times> nat \<times> string \<times> string) \<times> world" where
  "retry_loop e spec task p ok n lastError lastOutput w =
     (if \<not> ok \<and> int n < retries (aider_config spec) then
        (case attempt e spec task p lastError lastOutput w of
           (Inl msg, w') \<Rightarrow> (Inl (msg, Suc n), w')
         | (Inr (ok', lastError', lastOutput'), w') \<Rightarrow>
             retry_loop e spec task p ok' (Suc n) lastError' lastOutput' w')
      else (Inr (ok, n, lastError, lastOutput), w))"
  by pat_completeness auto
termination
  by (relation "measure (\<lambda>(e, spec, task, p, ok, n, lastError, lastOutput, w).
        nat (retries (aider_config spec) - int n))") auto

declare retry_loop.simps [simp del]

text \<open>The outer \<^verbatim>\<open>catch\<close> of \<^verbatim>\<open>executeTask\<close>: it fills \<^verbatim>\<open>result.error\<close> and
  returns the result as it stands.\<close>

definition executeTask_catch :: "TaskResult \<Rightarrow> string \<Rightarrow> TaskResult" where
  "executeTask_catch result m =
     result\<lparr>error := Some
       (if includes_str m ''Worktree directory does not exist''
        then ''Failed to access worktree: '' @ m @ ''. Check if the worktree was properly created.''
        else if includes_str m ''Branch''
        then ''Branch error: '' @ m @ ''. Check version control system status.''
        else if includes_str m ''chdir''
        then ''Failed to change directory: '' @ m @
             ''. Check if the directory exists and is accessible.''
        else ''Error in task execution: '' @ m)\<rparr>"

definition initial_result :: TaskResult where
  "initial_result = \<lparr>success = False, attempts = 0, error = None, output_text = None\<rparr>"

definition executeTask :: "env \<Rightarrow> Spec \<Rightarrow> Task \<Rightarrow> string \<Rightarrow> world \<Rightarrow> TaskResult \<times> world" where
  "executeTask e spec task spec_name w =
     (case createBranch e spec_name w of
        (Inl m, w1) \<Rightarrow> (executeTask_catch initial_result m, w1)
      | (Inr worktreePath, w1) \<Rightarrow>
          let originalCwd = cwd w1;
              absoluteWorktreePath = join e [cwd w1, worktreePath]
          in if \<not> existsSync e w1 absoluteWorktreePath
             then (executeTask_catch initial_result
                     (''Worktree directory does not exist: '' @ absoluteWorktreePath), w1)
             else
               (case chdir e absoluteWorktreePath w1 of
                  Inl m \<Rightarrow> (executeTask_catch initial_result m, w1)
                | Inr w2 \<Rightarrow>
                    (case retry_loop e spec task (prepareTaskPrompt spec task) False 0 [] [] w2 of
                       (Inl (m, n), w3) \<Rightarrow>
                         (executeTask_catch (initial_result\<lparr>attempts := n\<rparr>) m, w3)
                     | (Inr (ok, n, lastError, lastOutput), w3) \<Rightarrow>
                         (case chdir e originalCwd w3 of
                            Inl m \<Rightarrow> (executeTask_catch (initial_result\<lparr>attempts := n\<rparr>) m, w3)
                          | Inr w4 \<Rightarrow>
                              (\<lparr>success = ok, attempts = n,
                                error = (if ok then None
                                   else Some (''Task failed after '' @ string_of_nat n @
                                              '' attempts. Last error: '' @ lastError)),
                                output_text = Some lastOutput\<rparr>, w4)))))"


section \<open>lessonsLogger.ts\<close>

record TaskExecutionData =
  specName :: string
  taskName :: string
  data_attempts :: nat
  data_success :: bool
  data_error :: "string option"
  data_output :: "string option"

text \<open>
  The module does not load. In \<^verbatim>\<open>appendLesson\<close> (lines 121 to 126 of the file) the
  header of the log is a string literal in single quotes that runs over six lines with
  raw line breaks; a quoted literal ends at the line break, so the parser refuses the
  file. Loading the module throws that syntax error, and no function of the module
  (\<^verbatim>\<open>generateLesson\<close>, \<^verbatim>\<open>formatLesson\<close>, \<^verbatim>\<open>appendLesson\<close>, \<^verbatim>\<open>logLesson\<close>,
  \<^verbatim>\<open>logLessons\<close>) can be called.

  \<^verbatim>\<open>await import('./lessonsLogger')\<close> gives the module's \<^verbatim>\<open>logLessons\<close>, or throws:
  here it throws, with the parser's message.
\<close>

type_synonym logLessons_fun = "env \<Rightarrow> string \<Rightarrow> TaskExecutionData list \<Rightarrow> world \<Rightarrow> nat \<times> world"

definition import_lessonsLogger :: "string + logLessons_fun" where
  "import_lessonsLogger = Inl ''Unterminated string literal''"


section \<open>taskExecutor.ts: all tasks\<close>

definition execution_data :: "string \<Rightarrow> Task \<Rightarrow> TaskResult \<Rightarrow> TaskExecutionData" where
  "execution_data spec_name task result =
     \<lparr>specName = spec_name, taskName = name task, data_attempts = attempts result,
      data_success = success result, data_error = error result,
      data_output = output_text result\<rparr>"

text \<open>
  The \<^verbatim>\<open>for (const task of spec.tasks)\<close> loop over the tasks still ahead. It gives the
  results and the execution data in the order they were pushed, and the tasks as the
  loop leaves them (\<^verbatim>\<open>task.done = true\<close> is the only write). \<^verbatim>\<open>if (task.done)\<close>
  holds for \<open>Some True\<close> only.
\<close>

fun task_loop ::
  "env \<Rightarrow> Spec \<Rightarrow> string \<Rightarrow> Task list \<Rightarrow> world
     \<Rightarrow> (TaskResult list \<times> TaskExecutionData list \<times> Task list) \<times> world" where
  "task_loop e spec spec_name [] w = (([], [], []), w)"
| "task_loop e spec spec_name (task # rest) w =
     (if done_flag task = Some True then
        (case task_loop e spec spec_name rest w of
           ((results, datas, rest'), w') \<Rightarrow> ((results, datas, task # rest'), w'))
      else
        (case executeTask e spec task spec_name w of
           (result, w1) \<Rightarrow>
             if success result then
               (case task_loop e spec spec_name rest w1 of
                  ((results, datas, rest'), w') \<Rightarrow>
                    ((result # results,
                      execution_data spec_name task result # datas,
                      task\<lparr>done_flag := Some True\<rparr> # rest'), w'))
             else (([result], [execution_data spec_name task result], task # rest), w1)))"

text \<open>
  \<^verbatim>\<open>executeAllTasks\<close>: the results it returns, the spec with its tasks as mutated, and
  the world after the logging step. That step sits in a \<^verbatim>\<open>try\<close>: the import comes
  first, and when it throws, the handler prints the message and nothing else happens.
\<close>

definition executeAllTasks ::
  "env \<Rightarrow> Spec \<Rightarrow> string \<Rightarrow> string \<Rightarrow> world \<Rightarrow> (TaskResult list \<times> Spec) \<times> world" where
  "executeAllTasks e spec spec_name mainRepoRoot w =
     (case task_loop e spec spec_name (tasks spec) w of
        ((results, datas, tasks'), w1) \<Rightarrow>
          (case import_lessonsLogger of
             Inl m \<Rightarrow> ((results, spec\<lparr>tasks := tasks'\<rparr>), w1)
           | Inr logLessons \<Rightarrow>
               (case logLessons e mainRepoRoot datas w1 of
                  (loggedCount, w2) \<Rightarrow> ((results, spec\<lparr>tasks := tasks'\<rparr>), w2))))"


section \<open>Notions the properties are stated with\<close>

text \<open>\<open>sub\<close> occurs in \<open>s\<close>: what \<^verbatim>\<open>s.includes(sub)\<close> decides.\<close>

definition occurs_in :: "string \<Rightarrow> string \<Rightarrow> bool" where
  "occurs_in sub s = (\<exists>pre post. s = pre @ sub @ post)"

text \<open>The invocations of the coding agent among the processes spawned so far.\<close>

definition is_agent_call :: "string list \<Rightarrow> bool" where
  "is_agent_call argv = (case argv of [] \<Rightarrow> False | c # args \<Rightarrow> c = ''aider'')"

definition agent_invocations :: "world \<Rightarrow> string list list" where
  "agent_invocations w = filter is_agent_call (spawned w)"

text \<open>Two worlds that differ at most by processes spawned and prompts sent in between.\<close>

definition calls_only :: "world \<Rightarrow> world \<Rightarrow> bool" where
  "calls_only w w' =
     (\<exists>cmds ps. w' = w\<lparr>spawned := spawned w @ cmds, lm_prompts := lm_prompts w @ ps\<rparr>)"

text \<open>The working context of a task is acquired: \<^verbatim>\<open>createBranch\<close> returns a path, the
  worktree directory exists and the process can move into it.\<close>

definition context_acquired :: "env \<Rightarrow> string \<Rightarrow> world \<Rightarrow> bool" where
  "context_acquired e spec_name w =
     (case createBranch e spec_name w of
        (Inl m, w1) \<Rightarrow> False
      | (Inr worktreePath, w1) \<Rightarrow>
          existsSync e w1 (join e [cwd w1, worktreePath]) \<and>
          chdir_error e w1 (join e [cwd w1, worktreePath]) = None)"


section \<open>Concrete collaborators and inputs\<close>

text \<open>A stand-in for \<^verbatim>\<open>path.join\<close>: the segments with a slash between them. It does
  not normalise the result as \<^verbatim>\<open>path.join\<close> does, so \<^verbatim>\<open>..\<close> stays in the paths of
  the concrete runs.\<close>

fun slash_join :: "string list \<Rightarrow> string" where
  "slash_join [] = []"
| "slash_join [p] = p"
| "slash_join (p # q # ps) = p @ ''/'' @ slash_join (q # ps)"

text \<open>A world in which every collaborator answers: the key is set, the model replies
  \<open>reply\<close>, the coding agent prints \<open>edited\<close> and exits with \<open>acode\<close>, every other
  process exits with \<open>ocode\<close>, every path exists and every directory can be
  entered.\<close>

definition plain_env :: "string \<Rightarrow> int \<Rightarrow> int \<Rightarrow> env" where
  "plain_env reply acode ocode =
     \<lparr>api_key = Some ''key'',
      chat_completion = (\<lambda>w p. Inr (Some reply)),
      run_process = (\<lambda>w argv.
         if is_agent_call argv then Inr \<lparr>exitCode = acode, stdout = ''edited'', stderr = []\<rparr>
         else Inr \<lparr>exitCode = ocode, stdout = [], stderr = []\<rparr>),
      other_exists = (\<lambda>w p. True),
      chdir_error = (\<lambda>w p. None),
      join = slash_join\<rparr>"

definition world0 :: world where
  "world0 = \<lparr>cwd = ''/repo'', spawned = [], lm_prompts = [], files = Map.empty\<rparr>"

text \<open>A task checked by the test command, and a spec with three retries and no test
  command.\<close>

definition test_task :: Task where
  "test_task =
     \<lparr>name = ''t1'', done_flag = None, prompt = ''Add the parser'',
      evaluation = Some \<lparr>ev_type = ''test'', ev_command = None, check_prompt = None\<rparr>\<rparr>"

definition command_task :: Task where
  "command_task =
     \<lparr>name = ''t2'', done_flag = None, prompt = ''Add the printer'',
      evaluation = Some \<lparr>ev_type = ''command'', ev_command = Some ''make check'',
                         check_prompt = Some ''Did every check pass?''\<rparr>\<rparr>"

definition plain_task :: Task where
  "plain_task = \<lparr>name = ''t3'', done_flag = None, prompt = ''Tidy up'', evaluation = None\<rparr>"

definition spec_with :: "int \<Rightarrow> Task list \<Rightarrow> Spec" where
  "spec_with n ts =
     \<lparr>aider_config =
        \<lparr>model = ''gpt-4'', architect_mode = False, editable_files = [], readonly_files = [],
         retries = n, test_command = None\<rparr>,
      objective = ''Build it'', implementation_details = ''In TypeScript'', tasks = ts\<rparr>"

text \<open>The launch of the coding agent throws a value that has no message.\<close>

definition throwing_env :: env where
  "throwing_env =
     (plain_env ''yes'' 0 0)\<lparr>run_process := (\<lambda>w argv.
        if is_agent_call argv then Inl None
        else Inr \<lparr>exitCode = 0, stdout = [], stderr = []\<rparr>)\<rparr>"

text \<open>The directory the run started in can no longer be entered.\<close>

definition stuck_env :: env where
  "stuck_env =
     (plain_env ''yes'' 0 0)\<lparr>chdir_error := (\<lambda>w p.
        if p = ''/repo'' then Some ''ENOENT: no such file or directory, chdir'' else None)\<rparr>"

text \<open>What the task loop may do to one task: leave it, or set the flag of a task that
  was not done.\<close>

definition kept_or_marked :: "Task \<Rightarrow> Task \<Rightarrow> bool" where
  "kept_or_marked t t' =
     (t' = t \<or> (done_flag t \<noteq> Some True \<and> t' = t\<lparr>done_flag := Some True\<rparr>))"

definition pending :: "Task \<Rightarrow> bool" where
  "pending t = (done_flag t \<noteq> Some True)"

definition done_task :: Task where
  "done_task = \<lparr>name = ''t0'', done_flag = Some True, prompt = ''Set up'', evaluation = None\<rparr>"

text \<open>
  The stdouts the agent's processes report while the retry loop runs, in order: one
  entry for each attempt whose process reported, none for an attempt whose launch
  threw. The loop is followed through its own \<open>attempt\<close>; the entries are read from
  the launcher's answers.
\<close>

function captured_in_loop ::
  "env \<Rightarrow> Spec \<Rightarrow> Task \<Rightarrow> string \<Rightarrow> bool \<Rightarrow> nat \<Rightarrow> string \<Rightarrow> string \<Rightarrow> world \<Rightarrow> string list" where
  "captured_in_loop e spec task p ok n lastError lastOutput w =
     (if \<not> ok \<and> int n < retries (aider_config spec) then
        (case run_process e w (aider_argv spec p) of
           Inl t \<Rightarrow> []
         | Inr r \<Rightarrow> [stdout r]) @
        (case attempt e spec task p lastError lastOutput w of
           (Inl msg, w') \<Rightarrow> []
         | (Inr (ok', lastError', lastOutput'), w') \<Rightarrow>
             captured_in_loop e spec task p ok' (Suc n) lastError' lastOutput' w')
      else [])"
  by pat_completeness auto
termination
  by (relation "measure (\<lambda>(e, spec, task, p, ok, n, lastError, lastOutput, w).
        nat (retries (aider_config spec) - int n))") auto

declare captured_in_loop.simps [simp del]

text \<open>The same for a whole task: the loop starts in the worktree, in the world
  \<^verbatim>\<open>createBranch\<close> left.\<close>

definition captured_stdouts :: "env \<Rightarrow> Spec \<Rightarrow> Task \<Rightarrow> string \<Rightarrow> world \<Rightarrow> string list" where
  "captured_stdouts e spec task spec_name w =
     (case createBranch e spec_name w of
        (Inl m, w1) \<Rightarrow> []
      | (Inr worktreePath, w1) \<Rightarrow>
          captured_in_loop e spec task (prepareTaskPrompt spec task) False 0 [] []
            (w1\<lparr>cwd := join e [cwd w1, worktreePath]\<rparr>))"

text \<open>The last captured stdout: the last entry, or the empty string when there is none.\<close>

definition last_captured :: "string list \<Rightarrow> string" where
  "last_captured outs = (if outs = [] then [] else last outs)"

text \<open>Three tasks without evaluation.\<close>

definition three_tasks :: "Task list" where
  "three_tasks = [plain_task\<lparr>name := ''t1''\<rparr>, plain_task\<lparr>name := ''t2''\<rparr>, plain_task]"


section \<open>Facts about the string functions\<close>

lemma starts_with_iff: "starts_with s sub \<longleftrightarrow> (\<exists>post. s = sub @ post)"
  by (induction s sub rule: starts_with.induct) auto

lemma includes_str_iff: "includes_str s sub \<longleftrightarrow> (\<exists>pre post. s = pre @ sub @ post)"
proof (induction s)
  case Nil
  then show ?case by auto
next
  case (Cons c cs)
  show ?case
  proof
    assume "includes_str (c # cs) sub"
    then consider "starts_with (c # cs) sub" | "includes_str cs sub" by auto
    then show "\<exists>pre post. c # cs = pre @ sub @ post"
    proof cases
      case 1
      then obtain post where "c # cs = sub @ post" by (auto simp: starts_with_iff)
      then have "c # cs = [] @ sub @ post" by simp
      then show ?thesis by blast
    next
      case 2
      then obtain pre post where "cs = pre @ sub @ post" using Cons.IH by auto
      then have "c # cs = (c # pre) @ sub @ post" by simp
      then show ?thesis by blast
    qed
  next
    assume "\<exists>pre post. c # cs = pre @ sub @ post"
    then obtain pre post where eq: "c # cs = pre @ sub @ post" by blast
    show "includes_str (c # cs) sub"
    proof (cases pre)
      case Nil
      with eq have "starts_with (c # cs) sub" by (auto simp: starts_with_iff)
      then show ?thesis by simp
    next
      case (Cons d ds)
      with eq have "cs = ds @ sub @ post" by simp
      then have "includes_str cs sub" using Cons.IH by blast
      then show ?thesis by simp
    qed
  qed
qed

lemma occurs_in_includes: "occurs_in sub s \<longleftrightarrow> includes_str s sub"
  by (simp add: occurs_in_def includes_str_iff)

lemma split_space_not_empty: "split_space s \<noteq> []"
  by (induction s) (auto split: list.splits)


section \<open>The judgment step\<close>

lemma queryLanguageModel_plain:
  "queryLanguageModel (plain_env reply acode ocode) p w =
     (Inr (or_default (Some reply) ''No response received from language model.''),
      w\<lparr>lm_prompts := lm_prompts w @ [p]\<rparr>)"
  by (simp add: queryLanguageModel_def plain_env_def truthy_def)

lemma normalized_scenario_reply:
  "trim (toLowerCase ''Unfortunately, I cannot confirm success.'') =
     ''unfortunately, i cannot confirm success.''"
  by code_simp

text \<open>
  C5. Whenever the language model's reply arrives, the judgment step reads it lower-cased
  and trimmed: exactly \<open>yes\<close> is success, exactly \<open>no\<close> is failure, and any other reply is
  success if and only if \<open>yes\<close>, \<open>pass\<close>, \<open>succeed\<close> or \<open>correct\<close> occurs in the
  normalized text; when that fallback fails, the error message quotes the first 100
  characters of the raw reply.
\<close>

theorem judgment_of_reply:
  assumes "queryLanguageModel e (judgment_prompt cp out) w = (Inr response, w')"
  shows "let r = fst (evaluateWithLanguageModel e cp out w);
             n = trim (toLowerCase response)
         in (n = ''yes'' \<longrightarrow> eval_success r) \<and>
            (n = ''no'' \<longrightarrow> \<not> eval_success r) \<and>
            (n \<noteq> ''yes'' \<and> n \<noteq> ''no'' \<longrightarrow>
               (eval_success r \<longleftrightarrow>
                  (occurs_in ''yes'' n \<or> occurs_in ''pass'' n \<or>
                   occurs_in ''succeed'' n \<or> occurs_in ''correct'' n)) \<and>
               (\<not> eval_success r \<longrightarrow>
                  eval_error r =
                    Some (''Language model evaluation could not confirm success. Response: '' @
                          [CHR 34] @ take 100 response @ ''...'' @ [CHR 34])))"
  using assms
  by (simp add: evaluateWithLanguageModel_def parse_response_def Let_def occurs_in_def
      includes_str_iff substring0_def)

text \<open>The reply of scenario D: no accepted word occurs in it, so the evaluation fails and
  the message quotes the reply.\<close>

theorem judgment_of_reply_witness:
  "\<not> eval_success (fst (evaluateWithLanguageModel
        (plain_env ''Unfortunately, I cannot confirm success.'' 0 0)
        ''Did it work?'' ''done'' world0)) \<and>
   eval_error (fst (evaluateWithLanguageModel
        (plain_env ''Unfortunately, I cannot confirm success.'' 0 0)
        ''Did it work?'' ''done'' world0)) =
     Some (''Language model evaluation could not confirm success. Response: '' @ [CHR 34] @
           ''Unfortunately, I cannot confirm success.'' @ ''...'' @ [CHR 34])"
  using judgment_of_reply [OF queryLanguageModel_plain,
      of "''Unfortunately, I cannot confirm success.''" 0 0 "''Did it work?''" "''done''" world0]
  by (simp add: or_default_def normalized_scenario_reply Let_def occurs_in_includes)


section \<open>Evaluation\<close>

text \<open>
  C6. A command evaluation whose command exits with a code other than 0 fails at once:
  the message holds the exit code and the captured stderr, the only effect is the one
  spawned command (no prompt goes to the language model), and the outcome is the same
  whatever the check prompt is.
\<close>

theorem command_nonzero_exit:
  assumes "evaluation task = Some ev" and "ev_type ev = ''command''"
    and "ev_command ev = Some cmd" and "cmd \<noteq> []"
    and "run_process e w (split_space cmd) = Inr r" and "exitCode r \<noteq> 0"
  shows "evaluateTask e spec task out w =
           (eval_fail (''Command failed with exit code '' @ string_of_int (exitCode r) @
                       '': '' @ stderr r),
            w\<lparr>spawned := spawned w @ [split_space cmd]\<rparr>) \<and>
         lm_prompts (snd (evaluateTask e spec task out w)) = lm_prompts w \<and>
         evaluateTask e spec (task\<lparr>evaluation := Some (ev\<lparr>check_prompt := cp\<rparr>)\<rparr>) out w =
           evaluateTask e spec task out w"
  using assms by (simp add: evaluateTask_def spawn_def)

theorem command_nonzero_exit_witness:
  "evaluateTask (plain_env ''yes'' 0 2) (spec_with 3 [command_task]) command_task ''out'' world0 =
     (eval_fail ''Command failed with exit code 2: '',
      world0\<lparr>spawned := [[''make'', ''check'']]\<rparr>) \<and>
   lm_prompts (snd (evaluateTask (plain_env ''yes'' 0 2) (spec_with 3 [command_task])
                      command_task ''out'' world0)) = [] \<and>
   evaluateTask (plain_env ''yes'' 0 2) (spec_with 3 [command_task])
       (command_task\<lparr>evaluation := Some \<lparr>ev_type = ''command'', ev_command = Some ''make check'',
                                          check_prompt = None\<rparr>\<rparr>) ''out'' world0 =
     evaluateTask (plain_env ''yes'' 0 2) (spec_with 3 [command_task]) command_task ''out'' world0"
proof -
  have sp: "split_space ''make check'' = [''make'', ''check'']" by simp
  have s2: "string_of_int 2 = ''2''" by code_simp
  have w0: "spawned world0 = []" "lm_prompts world0 = []" by (simp_all add: world0_def)
  show ?thesis
    using command_nonzero_exit [of command_task
        "\<lparr>ev_type = ''command'', ev_command = Some ''make check'',
          check_prompt = Some ''Did every check pass?''\<rparr>"
        "''make check''" "plain_env ''yes'' 0 2" world0
        "\<lparr>exitCode = 2, stdout = [], stderr = []\<rparr>" "spec_with 3 [command_task]" "''out''" None]
    by (simp add: command_task_def plain_env_def is_agent_call_def sp s2 w0)
qed

text \<open>
  C7. A test evaluation with no test command configured (absent or empty) fails with the
  configuration message and leaves the world as it was: nothing is spawned.
\<close>

theorem test_without_command:
  assumes "evaluation task = Some ev" and "ev_type ev = ''test''"
    and "\<not> truthy (test_command (aider_config spec))"
  shows "evaluateTask e spec task out w =
           (eval_fail ''Test command not specified in aider_config.test_command'', w)"
  using assms by (simp add: evaluateTask_def truthy_def split: option.splits)

theorem test_without_command_witness:
  "evaluateTask (plain_env ''yes'' 0 0) (spec_with 3 [test_task]) test_task ''out'' world0 =
     (eval_fail ''Test command not specified in aider_config.test_command'', world0)"
  using test_without_command [of test_task
      "\<lparr>ev_type = ''test'', ev_command = None, check_prompt = None\<rparr>"
      "spec_with 3 [test_task]" "plain_env ''yes'' 0 0" "''out''" world0]
  by (simp add: test_task_def spec_with_def truthy_def)


section \<open>What the calls leave alone\<close>

lemma calls_only_refl: "calls_only w w"
proof -
  have "w = w\<lparr>spawned := spawned w @ [], lm_prompts := lm_prompts w @ []\<rparr>" by simp
  then show ?thesis unfolding calls_only_def by blast
qed

lemma calls_only_trans:
  assumes "calls_only w1 w2" and "calls_only w2 w3"
  shows "calls_only w1 w3"
proof -
  from assms(1) obtain c1 p1 where
    w2: "w2 = w1\<lparr>spawned := spawned w1 @ c1, lm_prompts := lm_prompts w1 @ p1\<rparr>"
    unfolding calls_only_def by blast
  from assms(2) obtain c2 p2 where
    w3: "w3 = w2\<lparr>spawned := spawned w2 @ c2, lm_prompts := lm_prompts w2 @ p2\<rparr>"
    unfolding calls_only_def by blast
  have "w3 = w1\<lparr>spawned := spawned w1 @ (c1 @ c2), lm_prompts := lm_prompts w1 @ (p1 @ p2)\<rparr>"
    by (simp add: w2 w3)
  then show ?thesis unfolding calls_only_def by blast
qed

lemma calls_only_same:
  assumes "calls_only w w'"
  shows "cwd w' = cwd w" and "files w' = files w"
  using assms by (auto simp: calls_only_def)

lemma calls_only_spawned:
  assumes "calls_only w w'"
  shows "\<exists>cmds. spawned w' = spawned w @ cmds"
  using assms by (auto simp: calls_only_def)

lemma calls_only_spawn: "spawn e argv w = (r, w') \<Longrightarrow> calls_only w w'"
proof -
  assume "spawn e argv w = (r, w')"
  then have "w' = w\<lparr>spawned := spawned w @ [argv], lm_prompts := lm_prompts w @ []\<rparr>"
    by (auto simp: spawn_def)
  then show ?thesis unfolding calls_only_def by blast
qed

lemma calls_only_query: "queryLanguageModel e p w = (r, w') \<Longrightarrow> calls_only w w'"
proof -
  assume q: "queryLanguageModel e p w = (r, w')"
  have "w' = w \<or> w' = w\<lparr>spawned := spawned w @ [], lm_prompts := lm_prompts w @ [p]\<rparr>"
    using q
    by (auto simp: queryLanguageModel_def Let_def split: if_splits sum.splits api_failure.splits)
  then show ?thesis using calls_only_refl unfolding calls_only_def by blast
qed

lemma calls_only_judgment:
  "evaluateWithLanguageModel e cp out w = (r, w') \<Longrightarrow> calls_only w w'"
  by (auto simp: evaluateWithLanguageModel_def split: prod.splits sum.splits
      dest: calls_only_query)

lemma calls_only_evaluateTask: "evaluateTask e spec task out w = (r, w') \<Longrightarrow> calls_only w w'"
  by (auto simp: evaluateTask_def calls_only_refl
      split: option.splits if_splits prod.splits sum.splits
      dest: calls_only_spawn calls_only_judgment intro: calls_only_trans)

lemma calls_only_attempt: "attempt e spec task p le lo w = (r, w') \<Longrightarrow> calls_only w w'"
  by (auto simp: attempt_def
      split: option.splits if_splits prod.splits sum.splits
      dest: calls_only_spawn calls_only_evaluateTask intro: calls_only_trans)

lemma calls_only_retry_loop:
  "retry_loop e spec task p ok n le lo w = (r, w') \<Longrightarrow> calls_only w w'"
proof (induction e spec task p ok n le lo w rule: retry_loop.induct)
  case (1 e spec task p ok n lastError lastOutput w)
  show ?case
  proof (cases "\<not> ok \<and> int n < retries (aider_config spec)")
    case False
    with "1.prems" have "w' = w" by (simp add: retry_loop.simps)
    then show ?thesis by (simp add: calls_only_refl)
  next
    case True
    obtain a w1 where a: "attempt e spec task p lastError lastOutput w = (a, w1)"
      by (cases "attempt e spec task p lastError lastOutput w")
    have step: "calls_only w w1" using a by (rule calls_only_attempt)
    show ?thesis
    proof (cases a)
      case (Inl m)
      with True a "1.prems" have "w' = w1" by (simp add: retry_loop.simps)
      with step show ?thesis by simp
    next
      case (Inr st)
      obtain ok' le' lo' where st: "st = (ok', le', lo')" by (cases st)
      from True a Inr st "1.prems"
      have "retry_loop e spec task p ok' (Suc n) le' lo' w1 = (r, w')"
        by (simp add: retry_loop.simps)
      with "1.IH" [OF True a [symmetric, unfolded Inr st]] True a Inr st
      have "calls_only w1 w'" by simp
      with step show ?thesis by (rule calls_only_trans)
    qed
  qed
qed

lemma calls_only_detectVC: "detectVC e w = (v, w') \<Longrightarrow> calls_only w w'"
  by (auto simp: detectVC_def calls_only_refl split: if_splits prod.splits sum.splits
      dest: calls_only_spawn)

lemma calls_only_create_commands:
  "create_commands e v sn path w = (r, w') \<Longrightarrow> calls_only w w'"
  by (auto simp: create_commands_def Let_def split: if_splits prod.splits sum.splits
      dest: calls_only_spawn intro: calls_only_trans)

lemma calls_only_createBranch: "createBranch e sn w = (r, w') \<Longrightarrow> calls_only w w'"
  by (auto simp: createBranch_def Let_def split: prod.splits sum.splits
      dest: calls_only_detectVC calls_only_create_commands intro: calls_only_trans)


section \<open>The retry loop\<close>

lemma agent_invocations_cwd [simp]: "agent_invocations (w\<lparr>cwd := p\<rparr>) = agent_invocations w"
  by (simp add: agent_invocations_def)

lemma is_agent_call_aider_argv [simp]: "is_agent_call (aider_argv spec p)"
  by (simp add: is_agent_call_def aider_argv_def)

lemma createBranch_no_agent:
  "createBranch e sn w = (r, w') \<Longrightarrow> agent_invocations w' = agent_invocations w"
  by (auto simp: createBranch_def detectVC_def create_commands_def spawn_def Let_def
      agent_invocations_def is_agent_call_def
      split: if_splits prod.splits sum.splits vcs.splits)

lemma retry_loop_stop:
  "ok \<or> retries (aider_config spec) \<le> int n \<Longrightarrow>
     retry_loop e spec task p ok n le lo w = (Inr (ok, n, le, lo), w)"
  by (auto simp: retry_loop.simps)

lemma retry_loop_step:
  assumes "int n < retries (aider_config spec)"
    and "attempt e spec task p le lo w = (Inr (ok', le', lo'), w')"
  shows "retry_loop e spec task p False n le lo w =
           retry_loop e spec task p ok' (Suc n) le' lo' w'"
  using assms by (subst retry_loop.simps) simp

lemma retry_loop_escape:
  assumes "int n < retries (aider_config spec)"
    and "attempt e spec task p le lo w = (Inl m, w')"
  shows "retry_loop e spec task p False n le lo w = (Inl (m, Suc n), w')"
  using assms by (subst retry_loop.simps) simp

text \<open>When every attempt fails in the ordinary way, having spawned the agent once and
  recorded an error with property \<open>Q\<close>, the loop runs until the retries are used up.\<close>

lemma retry_loop_failing:
  assumes step: "\<And>w le lo. \<exists>le' lo'. Q le' \<and>
      attempt e spec task p le lo w =
        (Inr (False, le', lo'), w\<lparr>spawned := spawned w @ [aider_argv spec p]\<rparr>)"
  shows "\<exists>le' lo'. (int n < retries (aider_config spec) \<longrightarrow> Q le') \<and>
      retry_loop e spec task p False n le lo w =
        (Inr (False, max n (nat (retries (aider_config spec))), le', lo'),
         w\<lparr>spawned := spawned w @
              replicate (nat (retries (aider_config spec)) - n) (aider_argv spec p)\<rparr>)"
proof (induction "nat (retries (aider_config spec)) - n" arbitrary: n le lo w)
  case 0
  then have stop: "retries (aider_config spec) \<le> int n" by linarith
  then have "retry_loop e spec task p False n le lo w = (Inr (False, n, le, lo), w)"
    by (simp add: retry_loop_stop)
  moreover from stop have "max n (nat (retries (aider_config spec))) = n" by linarith
  moreover from stop have "nat (retries (aider_config spec)) - n = 0" by linarith
  ultimately show ?case using stop by auto
next
  case (Suc k)
  then have go: "int n < retries (aider_config spec)" by linarith
  from step [of le lo w] obtain le1 lo1 where q1: "Q le1"
    and a: "attempt e spec task p le lo w =
              (Inr (False, le1, lo1), w\<lparr>spawned := spawned w @ [aider_argv spec p]\<rparr>)"
    by blast
  let ?w1 = "w\<lparr>spawned := spawned w @ [aider_argv spec p]\<rparr>"
  have k: "k = nat (retries (aider_config spec)) - Suc n" using Suc.hyps(2) by linarith
  from Suc.hyps(1) [OF k, of le1 lo1 ?w1] obtain le2 lo2 where
    q2: "int (Suc n) < retries (aider_config spec) \<longrightarrow> Q le2"
    and r: "retry_loop e spec task p False (Suc n) le1 lo1 ?w1 =
              (Inr (False, max (Suc n) (nat (retries (aider_config spec))), le2, lo2),
               ?w1\<lparr>spawned := spawned ?w1 @
                    replicate (nat (retries (aider_config spec)) - Suc n) (aider_argv spec p)\<rparr>)"
    by blast
  have m: "max (Suc n) (nat (retries (aider_config spec))) = max n (nat (retries (aider_config spec)))"
    using go by linarith
  have rep: "[aider_argv spec p] @ replicate (nat (retries (aider_config spec)) - Suc n) (aider_argv spec p)
               = replicate (nat (retries (aider_config spec)) - n) (aider_argv spec p)"
  proof -
    have "nat (retries (aider_config spec)) - n = Suc (nat (retries (aider_config spec)) - Suc n)"
      using go by linarith
    then show ?thesis by simp
  qed
  have q: "Q le2"
  proof (cases "int (Suc n) < retries (aider_config spec)")
    case True
    with q2 show ?thesis by simp
  next
    case False
    then have "retry_loop e spec task p False (Suc n) le1 lo1 ?w1 = (Inr (False, Suc n, le1, lo1), ?w1)"
      by (simp add: retry_loop_stop)
    with r have "le2 = le1" by simp
    with q1 show ?thesis by simp
  qed
  have "retry_loop e spec task p False n le lo w =
          retry_loop e spec task p False (Suc n) le1 lo1 ?w1"
    using go a by (rule retry_loop_step)
  also have "\<dots> = (Inr (False, max n (nat (retries (aider_config spec))), le2, lo2),
       w\<lparr>spawned := spawned w @
            replicate (nat (retries (aider_config spec)) - n) (aider_argv spec p)\<rparr>)"
    using r m rep by (simp del: replicate_Suc replicate.simps)
  finally show ?case using q by blast
qed


section \<open>One task\<close>

text \<open>
  C4. With \<open>retries = 0\<close> the result has \<open>attempts = 0\<close> and \<open>success = false\<close>, and the
  coding agent is not invoked: the agent's invocations after the call are those before
  it.
\<close>

theorem zero_retries:
  assumes "retries (aider_config spec) = 0"
  shows "attempts (fst (executeTask e spec task sn w)) = 0 \<and>
         \<not> success (fst (executeTask e spec task sn w)) \<and>
         agent_invocations (snd (executeTask e spec task sn w)) = agent_invocations w"
proof -
  have loop: "\<And>p w2. retry_loop e spec task p False 0 [] [] w2 = (Inr (False, 0, [], []), w2)"
    using assms by (simp add: retry_loop_stop)
  obtain b w1 where b: "createBranch e sn w = (b, w1)" by (cases "createBranch e sn w")
  have ag: "agent_invocations w1 = agent_invocations w" using b by (rule createBranch_no_agent)
  show ?thesis
    using b ag
    by (auto simp: executeTask_def Let_def loop executeTask_catch_def initial_result_def chdir_def
        split: sum.splits option.splits)
qed

theorem zero_retries_witness:
  "retries (aider_config (spec_with 0 [plain_task])) = 0 \<and>
   attempts (fst (executeTask (plain_env ''yes'' 0 0) (spec_with 0 [plain_task]) plain_task
                    ''demo'' world0)) = 0 \<and>
   \<not> success (fst (executeTask (plain_env ''yes'' 0 0) (spec_with 0 [plain_task]) plain_task
                     ''demo'' world0)) \<and>
   agent_invocations (snd (executeTask (plain_env ''yes'' 0 0) (spec_with 0 [plain_task])
                             plain_task ''demo'' world0)) = []"
  using zero_retries [of "spec_with 0 [plain_task]" "plain_env ''yes'' 0 0" plain_task
      "''demo''" world0]
  by (simp add: spec_with_def agent_invocations_def world0_def)

lemma evaluateTask_no_test_command:
  assumes "evaluation task = Some ev" and "ev_type ev = ''test''"
    and "\<not> truthy (test_command (aider_config spec))"
  shows "evaluateTask e spec task out w =
           (eval_fail ''Test command not specified in aider_config.test_command'', w)"
  using assms by (simp add: evaluateTask_def truthy_def split: option.splits)

lemma attempt_config_error:
  assumes "evaluation task = Some ev" and "ev_type ev = ''test''"
    and "\<not> truthy (test_command (aider_config spec))"
    and "run_process e w (aider_argv spec p) = Inr r" and "exitCode r = 0"
  shows "attempt e spec task p le lo w =
           (Inr (False, ''Test command not specified in aider_config.test_command'', stdout r),
            w\<lparr>spawned := spawned w @ [aider_argv spec p]\<rparr>)"
  using assms
  by (simp add: attempt_def spawn_def evaluateTask_no_test_command eval_fail_def or_default_def)

lemma attempt_exit_nonzero:
  assumes "run_process e w (aider_argv spec p) = Inr r" and "exitCode r \<noteq> 0"
  shows "attempt e spec task p le lo w =
           (Inr (False, exit_failure_message r, stdout r),
            w\<lparr>spawned := spawned w @ [aider_argv spec p]\<rparr>)"
  using assms by (simp add: attempt_def spawn_def)

lemma attempt_thrown_no_message:
  assumes "run_process e w (aider_argv spec p) = Inl None"
  shows "attempt e spec task p le lo w =
           (Inl type_error_message, w\<lparr>spawned := spawned w @ [aider_argv spec p]\<rparr>)"
  using assms by (simp add: attempt_def spawn_def)

text \<open>\<^verbatim>\<open>executeTask\<close> once the working context is there.\<close>

lemma executeTask_in_context:
  assumes "createBranch e sn w = (Inr path, w1)"
    and "existsSync e w1 (join e [cwd w1, path])"
    and "chdir_error e w1 (join e [cwd w1, path]) = None"
  shows "executeTask e spec task sn w =
     (case retry_loop e spec task (prepareTaskPrompt spec task) False 0 [] []
             (w1\<lparr>cwd := join e [cwd w1, path]\<rparr>) of
        (Inl (m, n), w3) \<Rightarrow> (executeTask_catch (initial_result\<lparr>attempts := n\<rparr>) m, w3)
      | (Inr (ok, n, lastError, lastOutput), w3) \<Rightarrow>
          (case chdir e (cwd w1) w3 of
             Inl m \<Rightarrow> (executeTask_catch (initial_result\<lparr>attempts := n\<rparr>) m, w3)
           | Inr w4 \<Rightarrow>
               (\<lparr>success = ok, attempts = n,
                 error = (if ok then None
                    else Some (''Task failed after '' @ string_of_nat n @
                               '' attempts. Last error: '' @ lastError)),
                 output_text = Some lastOutput\<rparr>, w4)))"
  using assms by (simp add: executeTask_def Let_def chdir_def)

lemma executeTask_no_context:
  assumes "\<not> context_acquired e sn w"
  shows "\<exists>m. executeTask e spec task sn w =
           (executeTask_catch initial_result m, snd (createBranch e sn w))"
  using assms
  by (auto simp: context_acquired_def executeTask_def Let_def chdir_def
      split: prod.splits sum.splits option.splits)

text \<open>With collaborators that answer and a \<^verbatim>\<open>.jj\<close> directory in place,
  \<^verbatim>\<open>createBranch\<close> runs its two commands and returns the worktree path.\<close>

lemma createBranch_ok:
  assumes "existsSync e w ''.jj''"
    and "\<And>w' argv. \<not> is_agent_call argv \<Longrightarrow>
           run_process e w' argv = Inr \<lparr>exitCode = 0, stdout = [], stderr = []\<rparr>"
  shows "createBranch e sn w =
     (Inr (join e [''..'', ''worktrees'', sn]),
      w\<lparr>spawned := spawned w @
           [[''jj'', ''branch'', ''create'', sn],
            [''jj'', ''worktree'', ''add'', join e [''..'', ''worktrees'', sn], sn]]\<rparr>)"
proof -
  have 1: "run_process e w [''jj'', ''branch'', ''create'', sn]
             = Inr \<lparr>exitCode = 0, stdout = [], stderr = []\<rparr>"
    by (rule assms(2)) (simp add: is_agent_call_def)
  have 2: "\<And>w'. run_process e w' [''jj'', ''worktree'', ''add'', join e [''..'', ''worktrees'', sn], sn]
             = Inr \<lparr>exitCode = 0, stdout = [], stderr = []\<rparr>"
    by (rule assms(2)) (simp add: is_agent_call_def)
  show ?thesis
    using assms(1) 1 2
    by (simp add: createBranch_def detectVC_def create_commands_def spawn_def Let_def)
qed

lemma plain_env_context:
  "createBranch (plain_env reply acode 0) sn world0 =
     (Inr (slash_join [''..'', ''worktrees'', sn]),
      world0\<lparr>spawned := [[''jj'', ''branch'', ''create'', sn],
            [''jj'', ''worktree'', ''add'', slash_join [''..'', ''worktrees'', sn], sn]]\<rparr>)"
proof -
  have "createBranch (plain_env reply acode 0) sn world0 =
     (Inr (join (plain_env reply acode 0) [''..'', ''worktrees'', sn]),
      world0\<lparr>spawned := spawned world0 @
           [[''jj'', ''branch'', ''create'', sn],
            [''jj'', ''worktree'', ''add'', join (plain_env reply acode 0) [''..'', ''worktrees'', sn], sn]]\<rparr>)"
    by (rule createBranch_ok) (simp_all add: existsSync_def plain_env_def world0_def)
  then show ?thesis by (simp add: plain_env_def world0_def)
qed

text \<open>The retry loop of a task whose test evaluation has no test command, with an agent
  that exits with 0 every time.\<close>

lemma retry_loop_config_error:
  assumes ev: "evaluation task = Some ev" "ev_type ev = ''test''"
      "\<not> truthy (test_command (aider_config spec))"
    and agent: "\<forall>w'. \<exists>r. run_process e w' (aider_argv spec p) = Inr r \<and> exitCode r = 0"
  shows "\<exists>le' lo'.
      (int n < retries (aider_config spec) \<longrightarrow>
         le' = ''Test command not specified in aider_config.test_command'') \<and>
      retry_loop e spec task p False n le lo w =
        (Inr (False, max n (nat (retries (aider_config spec))), le', lo'),
         w\<lparr>spawned := spawned w @
              replicate (nat (retries (aider_config spec)) - n) (aider_argv spec p)\<rparr>)"
proof (rule retry_loop_failing)
  fix w le lo
  from agent obtain r where "run_process e w (aider_argv spec p) = Inr r" and "exitCode r = 0"
    by blast
  with ev have "attempt e spec task p le lo w =
      (Inr (False, ''Test command not specified in aider_config.test_command'', stdout r),
       w\<lparr>spawned := spawned w @ [aider_argv spec p]\<rparr>)"
    by (rule attempt_config_error)
  then show "\<exists>le' lo'. le' = ''Test command not specified in aider_config.test_command'' \<and>
      attempt e spec task p le lo w =
        (Inr (False, le', lo'), w\<lparr>spawned := spawned w @ [aider_argv spec p]\<rparr>)"
    by blast
qed

text \<open>The whole run of such a task, once the working context is acquired and the
  restoring \<^verbatim>\<open>chdir\<close> succeeds.\<close>

lemma executeTask_config_error:
  assumes ev: "evaluation task = Some ev" "ev_type ev = ''test''"
      "\<not> truthy (test_command (aider_config spec))"
    and agent: "\<forall>w'. \<exists>r. run_process e w' (aider_argv spec (prepareTaskPrompt spec task)) = Inr r
                  \<and> exitCode r = 0"
    and ctx: "context_acquired e sn w"
    and restore: "\<forall>w'. chdir_error e w' (cwd w) = None"
    and pos: "0 < retries (aider_config spec)"
  shows "\<exists>lo' w1. calls_only w w1 \<and> agent_invocations w1 = agent_invocations w \<and>
     executeTask e spec task sn w =
      (\<lparr>success = False, attempts = nat (retries (aider_config spec)),
        error = Some (''Task failed after '' @ string_of_nat (nat (retries (aider_config spec))) @
                      '' attempts. Last error: '' @
                      ''Test command not specified in aider_config.test_command''),
        output_text = Some lo'\<rparr>,
       w1\<lparr>spawned := spawned w1 @
             replicate (nat (retries (aider_config spec)))
               (aider_argv spec (prepareTaskPrompt spec task))\<rparr>)"
proof -
  let ?p = "prepareTaskPrompt spec task"
  let ?k = "nat (retries (aider_config spec))"
  obtain path w1 where cb: "createBranch e sn w = (Inr path, w1)"
    and ex: "existsSync e w1 (join e [cwd w1, path])"
    and cd: "chdir_error e w1 (join e [cwd w1, path]) = None"
    using ctx by (auto simp: context_acquired_def split: prod.splits sum.splits)
  have co: "calls_only w w1" using cb by (rule calls_only_createBranch)
  have same: "cwd w1 = cwd w" using co by (rule calls_only_same)
  have ag: "agent_invocations w1 = agent_invocations w" using cb by (rule createBranch_no_agent)
  let ?w2 = "w1\<lparr>cwd := join e [cwd w1, path]\<rparr>"
  from retry_loop_config_error [OF ev agent, of 0 "[]" "[]" ?w2] pos
  obtain lo' where loop: "retry_loop e spec task ?p False 0 [] [] ?w2 =
      (Inr (False, ?k, ''Test command not specified in aider_config.test_command'', lo'),
       ?w2\<lparr>spawned := spawned ?w2 @ replicate ?k (aider_argv spec ?p)\<rparr>)"
    by auto
  have bk: "\<And>w'. chdir e (cwd w1) w' = Inr (w'\<lparr>cwd := cwd w1\<rparr>)"
    using restore by (simp add: chdir_def same)
  have "executeTask e spec task sn w =
      (\<lparr>success = False, attempts = ?k,
        error = Some (''Task failed after '' @ string_of_nat ?k @ '' attempts. Last error: '' @
                      ''Test command not specified in aider_config.test_command''),
        output_text = Some lo'\<rparr>,
       w1\<lparr>spawned := spawned w1 @ replicate ?k (aider_argv spec ?p)\<rparr>)"
    by (simp add: executeTask_in_context [OF cb ex cd] loop bk)
  with co ag show ?thesis by blast
qed

lemma agent_invocations_replicate:
  "agent_invocations (w\<lparr>spawned := spawned w @ replicate k (aider_argv spec p)\<rparr>) =
     agent_invocations w @ replicate k (aider_argv spec p)"
  by (simp add: agent_invocations_def)

lemma plain_env_acquires: "context_acquired (plain_env reply acode 0) sn world0"
  by (simp add: context_acquired_def plain_env_context)
     (simp add: plain_env_def existsSync_def world0_def)

lemma plain_env_agent:
  "\<forall>w'. \<exists>r. run_process (plain_env reply acode ocode) w' (aider_argv spec p) = Inr r \<and>
             exitCode r = acode"
  by (simp add: plain_env_def)

text \<open>
  C3, as the code has it. A configuration error (a test evaluation with no test command)
  is recorded as the attempt's failure reason and retried like any other evaluation
  failure: with the working context acquired, the restoring \<^verbatim>\<open>chdir\<close> succeeding and
  an agent that exits with 0 every time, the engine makes all \<open>retries\<close> attempts, each
  one an invocation of the agent, and reports the configuration message as the last
  error.
\<close>

theorem config_error_retried:
  assumes "evaluation task = Some ev" and "ev_type ev = ''test''"
    and "\<not> truthy (test_command (aider_config spec))"
    and "\<forall>w'. \<exists>r. run_process e w' (aider_argv spec (prepareTaskPrompt spec task)) = Inr r
                  \<and> exitCode r = 0"
    and "context_acquired e sn w"
    and "\<forall>w'. chdir_error e w' (cwd w) = None"
    and "0 < retries (aider_config spec)"
  shows "attempts (fst (executeTask e spec task sn w)) = nat (retries (aider_config spec)) \<and>
         \<not> success (fst (executeTask e spec task sn w)) \<and>
         error (fst (executeTask e spec task sn w)) =
           Some (''Task failed after '' @ string_of_nat (nat (retries (aider_config spec))) @
                 '' attempts. Last error: '' @
                 ''Test command not specified in aider_config.test_command'') \<and>
         agent_invocations (snd (executeTask e spec task sn w)) =
           agent_invocations w @
           replicate (nat (retries (aider_config spec))) (aider_argv spec (prepareTaskPrompt spec task))"
proof -
  from executeTask_config_error [OF assms] obtain lo' w1 where
    "agent_invocations w1 = agent_invocations w" and
    "executeTask e spec task sn w =
      (\<lparr>success = False, attempts = nat (retries (aider_config spec)),
        error = Some (''Task failed after '' @ string_of_nat (nat (retries (aider_config spec))) @
                      '' attempts. Last error: '' @
                      ''Test command not specified in aider_config.test_command''),
        output_text = Some lo'\<rparr>,
       w1\<lparr>spawned := spawned w1 @
             replicate (nat (retries (aider_config spec)))
               (aider_argv spec (prepareTaskPrompt spec task))\<rparr>)"
    by blast
  then show ?thesis by (simp add: agent_invocations_replicate)
qed

theorem config_error_retried_witness:
  "context_acquired (plain_env ''yes'' 0 0) ''demo'' world0 \<and>
   attempts (fst (executeTask (plain_env ''yes'' 0 0) (spec_with 2 [test_task]) test_task
                    ''demo'' world0)) = 2 \<and>
   \<not> success (fst (executeTask (plain_env ''yes'' 0 0) (spec_with 2 [test_task]) test_task
                     ''demo'' world0)) \<and>
   error (fst (executeTask (plain_env ''yes'' 0 0) (spec_with 2 [test_task]) test_task
                 ''demo'' world0)) =
     Some ''Task failed after 2 attempts. Last error: Test command not specified in aider_config.test_command'' \<and>
   length (agent_invocations (snd (executeTask (plain_env ''yes'' 0 0) (spec_with 2 [test_task])
                                     test_task ''demo'' world0))) = 2"
proof -
  have s2: "string_of_nat 2 = ''2''" by code_simp
  have r: "retries (aider_config (spec_with 2 [test_task])) = 2" by (simp add: spec_with_def)
  have "attempts (fst (executeTask (plain_env ''yes'' 0 0) (spec_with 2 [test_task]) test_task
                    ''demo'' world0)) = nat (retries (aider_config (spec_with 2 [test_task]))) \<and>
   \<not> success (fst (executeTask (plain_env ''yes'' 0 0) (spec_with 2 [test_task]) test_task
                     ''demo'' world0)) \<and>
   error (fst (executeTask (plain_env ''yes'' 0 0) (spec_with 2 [test_task]) test_task
                 ''demo'' world0)) =
     Some (''Task failed after '' @ string_of_nat (nat (retries (aider_config (spec_with 2 [test_task])))) @
                 '' attempts. Last error: '' @
                 ''Test command not specified in aider_config.test_command'') \<and>
   agent_invocations (snd (executeTask (plain_env ''yes'' 0 0) (spec_with 2 [test_task])
                             test_task ''demo'' world0)) =
     agent_invocations world0 @
     replicate (nat (retries (aider_config (spec_with 2 [test_task]))))
       (aider_argv (spec_with 2 [test_task]) (prepareTaskPrompt (spec_with 2 [test_task]) test_task))"
  proof (rule config_error_retried)
    show "evaluation test_task = Some \<lparr>ev_type = ''test'', ev_command = None, check_prompt = None\<rparr>"
      by (simp add: test_task_def)
    show "ev_type \<lparr>ev_type = ''test'', ev_command = None, check_prompt = None\<rparr> = ''test''"
      by simp
    show "\<not> truthy (test_command (aider_config (spec_with 2 [test_task])))"
      by (simp add: spec_with_def truthy_def)
    show "\<forall>w'. \<exists>r. run_process (plain_env ''yes'' 0 0) w'
            (aider_argv (spec_with 2 [test_task]) (prepareTaskPrompt (spec_with 2 [test_task]) test_task)) = Inr r
           \<and> exitCode r = 0"
      by (rule plain_env_agent)
    show "context_acquired (plain_env ''yes'' 0 0) ''demo'' world0" by (rule plain_env_acquires)
    show "\<forall>w'. chdir_error (plain_env ''yes'' 0 0) w' (cwd world0) = None"
      by (simp add: plain_env_def)
    show "0 < retries (aider_config (spec_with 2 [test_task]))" by (simp add: r)
  qed
  moreover have "agent_invocations world0 = []"
    by (simp add: agent_invocations_def world0_def)
  ultimately show ?thesis
    by (simp add: r s2 plain_env_acquires)
qed

text \<open>Against C3 as stated: with three retries the first attempt already ends in the
  configuration error, and the engine still makes three attempts, invoking the agent
  three times.\<close>

theorem config_error_never_retried_counterexample:
  "fst (attempt (plain_env ''yes'' 0 0) (spec_with 3 [test_task]) test_task
          (prepareTaskPrompt (spec_with 3 [test_task]) test_task) [] [] world0) =
     Inr (False, ''Test command not specified in aider_config.test_command'', ''edited'') \<and>
   attempts (fst (executeTask (plain_env ''yes'' 0 0) (spec_with 3 [test_task]) test_task
                    ''demo'' world0)) = 3 \<and>
   length (agent_invocations (snd (executeTask (plain_env ''yes'' 0 0) (spec_with 3 [test_task])
                                     test_task ''demo'' world0))) = 3"
proof -
  let ?e = "plain_env ''yes'' 0 0"
  let ?s = "spec_with 3 [test_task]"
  have ev: "evaluation test_task = Some \<lparr>ev_type = ''test'', ev_command = None, check_prompt = None\<rparr>"
    by (simp add: test_task_def)
  have ty: "ev_type \<lparr>ev_type = ''test'', ev_command = None, check_prompt = None\<rparr> = ''test''"
    by simp
  have nt: "\<not> truthy (test_command (aider_config ?s))" by (simp add: spec_with_def truthy_def)
  have r: "retries (aider_config ?s) = 3" by (simp add: spec_with_def)
  have rp: "run_process ?e world0 (aider_argv ?s (prepareTaskPrompt ?s test_task)) =
              Inr \<lparr>exitCode = 0, stdout = ''edited'', stderr = []\<rparr>"
    by (simp add: plain_env_def)
  have first: "attempt ?e ?s test_task (prepareTaskPrompt ?s test_task) [] [] world0 =
      (Inr (False, ''Test command not specified in aider_config.test_command'',
            stdout \<lparr>exitCode = 0, stdout = ''edited'', stderr = []\<rparr>),
       world0\<lparr>spawned := spawned world0 @ [aider_argv ?s (prepareTaskPrompt ?s test_task)]\<rparr>)"
    using ev ty nt rp by (rule attempt_config_error) simp
  have w0: "agent_invocations world0 = []" by (simp add: agent_invocations_def world0_def)
  have "\<exists>lo' w1. calls_only world0 w1 \<and> agent_invocations w1 = agent_invocations world0 \<and>
     executeTask ?e ?s test_task ''demo'' world0 =
      (\<lparr>success = False, attempts = nat (retries (aider_config ?s)),
        error = Some (''Task failed after '' @ string_of_nat (nat (retries (aider_config ?s))) @
                      '' attempts. Last error: '' @
                      ''Test command not specified in aider_config.test_command''),
        output_text = Some lo'\<rparr>,
       w1\<lparr>spawned := spawned w1 @
             replicate (nat (retries (aider_config ?s)))
               (aider_argv ?s (prepareTaskPrompt ?s test_task))\<rparr>)"
  proof (rule executeTask_config_error [OF ev ty nt plain_env_agent plain_env_acquires])
    show "\<forall>w'. chdir_error ?e w' (cwd world0) = None" by (simp add: plain_env_def)
    show "0 < retries (aider_config ?s)" by (simp add: r)
  qed
  then obtain lo' w1 where ag: "agent_invocations w1 = agent_invocations world0" and
    run: "executeTask ?e ?s test_task ''demo'' world0 =
      (\<lparr>success = False, attempts = nat (retries (aider_config ?s)),
        error = Some (''Task failed after '' @ string_of_nat (nat (retries (aider_config ?s))) @
                      '' attempts. Last error: '' @
                      ''Test command not specified in aider_config.test_command''),
        output_text = Some lo'\<rparr>,
       w1\<lparr>spawned := spawned w1 @
             replicate (nat (retries (aider_config ?s)))
               (aider_argv ?s (prepareTaskPrompt ?s test_task))\<rparr>)"
    by blast
  show ?thesis
    by (simp add: first run r agent_invocations_replicate ag w0)
qed


section \<open>Errors that leave the loop, the output field and the working directory\<close>

lemma attempt_no_escape:
  assumes "\<forall>w' argv. run_process e w' argv \<noteq> Inl None"
  shows "\<exists>st w'. attempt e spec task p le lo w = (Inr st, w')"
proof (cases "run_process e w (aider_argv spec p)")
  case (Inl t)
  with assms obtain m where "t = Some m" by (cases t) auto
  with Inl show ?thesis by (auto simp: attempt_def spawn_def)
next
  case (Inr r)
  then show ?thesis
    by (auto simp: attempt_def spawn_def split: option.splits prod.splits)
qed

lemma retry_loop_no_escape:
  assumes msgs: "\<forall>w' argv. run_process e w' argv \<noteq> Inl None"
  shows "\<exists>st w'. retry_loop e spec task p ok n le lo w = (Inr st, w')"
  using msgs
proof (induction e spec task p ok n le lo w rule: retry_loop.induct)
  case (1 e spec task p ok n lastError lastOutput w)
  show ?case
  proof (cases "\<not> ok \<and> int n < retries (aider_config spec)")
    case False
    then have "ok \<or> retries (aider_config spec) \<le> int n" by auto
    then show ?thesis by (simp add: retry_loop_stop)
  next
    case True
    from attempt_no_escape [OF "1.prems"] obtain st w1 where
      a: "attempt e spec task p lastError lastOutput w = (Inr st, w1)" by blast
    obtain ok' le' lo' where st: "st = (ok', le', lo')" by (cases st)
    have "retry_loop e spec task p ok n lastError lastOutput w =
            retry_loop e spec task p ok' (Suc n) le' lo' w1"
      using True a st by (subst retry_loop.simps) simp
    moreover have "\<exists>st w'. retry_loop e spec task p ok' (Suc n) le' lo' w1 = (Inr st, w')"
      using "1.IH" [OF True a [symmetric, unfolded st]] "1.prems" by simp
    ultimately show ?thesis by simp
  qed
qed

text \<open>\<^verbatim>\<open>lastOutput\<close> after an attempt: the stdout the agent's process reported, or what
  it was before when the launch threw.\<close>

lemma attempt_output:
  assumes "attempt e spec task p le lo w = (Inr (ok', le', lo'), w')"
  shows "lo' = (case run_process e w (aider_argv spec p) of Inl t \<Rightarrow> lo | Inr r \<Rightarrow> stdout r)"
  using assms
  by (auto simp: attempt_def spawn_def split: sum.splits option.splits if_splits prod.splits)

lemma retry_loop_output:
  assumes "retry_loop e spec task p ok n le lo w = (Inr (ok', n', le', lo'), w')"
  shows "lo' = lo \<or>
         (\<exists>wk r. calls_only w wk \<and> run_process e wk (aider_argv spec p) = Inr r \<and> lo' = stdout r)"
  using assms
proof (induction e spec task p ok n le lo w rule: retry_loop.induct)
  case (1 e spec task p ok n lastError lastOutput w)
  show ?case
  proof (cases "\<not> ok \<and> int n < retries (aider_config spec)")
    case False
    with "1.prems" show ?thesis by (simp add: retry_loop.simps)
  next
    case True
    obtain a w1 where a: "attempt e spec task p lastError lastOutput w = (a, w1)"
      by (cases "attempt e spec task p lastError lastOutput w")
    show ?thesis
    proof (cases a)
      case (Inl m)
      with True a "1.prems" show ?thesis by (simp add: retry_loop.simps)
    next
      case (Inr st)
      obtain ok1 le1 lo1 where st: "st = (ok1, le1, lo1)" by (cases st)
      have a': "attempt e spec task p lastError lastOutput w = (Inr (ok1, le1, lo1), w1)"
        using a Inr st by simp
      have rest: "retry_loop e spec task p ok1 (Suc n) le1 lo1 w1 = (Inr (ok', n', le', lo'), w')"
        using True a' "1.prems" by (simp add: retry_loop.simps)
      have step: "calls_only w w1" using a' by (rule calls_only_attempt)
      have first: "lo1 = lastOutput \<or>
          (\<exists>r. run_process e w (aider_argv spec p) = Inr r \<and> lo1 = stdout r)"
        using attempt_output [OF a'] by (auto split: sum.splits)
      from "1.IH" [OF True a' [symmetric] refl refl refl rest]
      consider "lo' = lo1" |
        wk r where "calls_only w1 wk" "run_process e wk (aider_argv spec p) = Inr r" "lo' = stdout r"
        by blast
      then show ?thesis
      proof cases
        case 1
        with first calls_only_refl [of w] show ?thesis by blast
      next
        case 2
        from step 2(1) have "calls_only w wk" by (rule calls_only_trans)
        with 2 show ?thesis by blast
      qed
    qed
  qed
qed

text \<open>When every thrown value carries a message and the process can move back, a task
  whose working context was acquired returns through the normal path: the working
  directory is the one before the call and the output field is set.\<close>

lemma executeTask_normal_path:
  assumes msgs: "\<forall>w' argv. run_process e w' argv \<noteq> Inl None"
    and restore: "\<forall>w'. chdir_error e w' (cwd w) = None"
    and ctx: "context_acquired e sn w"
  shows "\<exists>ok n lastError lastOutput w3 path w1.
      createBranch e sn w = (Inr path, w1) \<and>
      retry_loop e spec task (prepareTaskPrompt spec task) False 0 [] []
        (w1\<lparr>cwd := join e [cwd w1, path]\<rparr>) = (Inr (ok, n, lastError, lastOutput), w3) \<and>
      executeTask e spec task sn w =
        (\<lparr>success = ok, attempts = n,
          error = (if ok then None
             else Some (''Task failed after '' @ string_of_nat n @
                        '' attempts. Last error: '' @ lastError)),
          output_text = Some lastOutput\<rparr>, w3\<lparr>cwd := cwd w\<rparr>)"
proof -
  obtain path w1 where cb: "createBranch e sn w = (Inr path, w1)"
    and ex: "existsSync e w1 (join e [cwd w1, path])"
    and cd: "chdir_error e w1 (join e [cwd w1, path]) = None"
    using ctx by (auto simp: context_acquired_def split: prod.splits sum.splits)
  have same: "cwd w1 = cwd w" using calls_only_createBranch [OF cb] by (rule calls_only_same)
  from retry_loop_no_escape [OF msgs] obtain st w3 where
    "retry_loop e spec task (prepareTaskPrompt spec task) False 0 [] []
       (w1\<lparr>cwd := join e [cwd w1, path]\<rparr>) = (Inr st, w3)" by blast
  then obtain ok n le lo where loop:
    "retry_loop e spec task (prepareTaskPrompt spec task) False 0 [] []
       (w1\<lparr>cwd := join e [cwd w1, path]\<rparr>) = (Inr (ok, n, le, lo), w3)"
    by (cases st) auto
  have bk: "\<And>w'. chdir e (cwd w1) w' = Inr (w'\<lparr>cwd := cwd w1\<rparr>)"
    using restore by (simp add: chdir_def same)
  have "executeTask e spec task sn w =
        (\<lparr>success = ok, attempts = n,
          error = (if ok then None
             else Some (''Task failed after '' @ string_of_nat n @
                        '' attempts. Last error: '' @ le)),
          output_text = Some lo\<rparr>, w3\<lparr>cwd := cwd w1\<rparr>)"
    by (simp add: executeTask_in_context [OF cb ex cd] loop bk)
  with cb loop same show ?thesis by auto
qed

lemma executeTask_restores_cwd:
  assumes "\<forall>w' argv. run_process e w' argv \<noteq> Inl None"
    and "\<forall>w'. chdir_error e w' (cwd w) = None"
  shows "cwd (snd (executeTask e spec task sn w)) = cwd w"
proof (cases "context_acquired e sn w")
  case True
  from executeTask_normal_path [OF assms True, of spec task] show ?thesis by auto
next
  case False
  from executeTask_no_context [OF False, of spec task] obtain m where
    "executeTask e spec task sn w = (executeTask_catch initial_result m, snd (createBranch e sn w))"
    by blast
  moreover have "calls_only w (snd (createBranch e sn w))"
    by (rule calls_only_createBranch [of e sn w "fst (createBranch e sn w)"]) simp
  ultimately show ?thesis by (simp add: calls_only_same)
qed

text \<open>An agent that exits with a code other than 0 every time uses up the retries.\<close>

lemma executeTask_agent_fails:
  assumes agent: "\<forall>w'. \<exists>r. run_process e w' (aider_argv spec (prepareTaskPrompt spec task)) = Inr r
                     \<and> exitCode r \<noteq> 0"
    and ctx: "context_acquired e sn w"
  shows "attempts (fst (executeTask e spec task sn w)) = nat (retries (aider_config spec)) \<and>
         \<not> success (fst (executeTask e spec task sn w))"
proof -
  let ?p = "prepareTaskPrompt spec task"
  obtain path w1 where cb: "createBranch e sn w = (Inr path, w1)"
    and ex: "existsSync e w1 (join e [cwd w1, path])"
    and cd: "chdir_error e w1 (join e [cwd w1, path]) = None"
    using ctx by (auto simp: context_acquired_def split: prod.splits sum.splits)
  have step: "\<And>w le lo. \<exists>le' lo'. True \<and> attempt e spec task ?p le lo w =
      (Inr (False, le', lo'), w\<lparr>spawned := spawned w @ [aider_argv spec ?p]\<rparr>)"
  proof -
    fix w le lo
    from agent obtain r where "run_process e w (aider_argv spec ?p) = Inr r" and "exitCode r \<noteq> 0"
      by blast
    then have "attempt e spec task ?p le lo w =
        (Inr (False, exit_failure_message r, stdout r), w\<lparr>spawned := spawned w @ [aider_argv spec ?p]\<rparr>)"
      by (rule attempt_exit_nonzero)
    then show "\<exists>le' lo'. True \<and> attempt e spec task ?p le lo w =
        (Inr (False, le', lo'), w\<lparr>spawned := spawned w @ [aider_argv spec ?p]\<rparr>)"
      by blast
  qed
  from retry_loop_failing [of "\<lambda>x. True" e spec task ?p 0 "[]" "[]" "w1\<lparr>cwd := join e [cwd w1, path]\<rparr>", OF step]
  obtain le' lo' w3 where loop:
    "retry_loop e spec task ?p False 0 [] [] (w1\<lparr>cwd := join e [cwd w1, path]\<rparr>) =
       (Inr (False, nat (retries (aider_config spec)), le', lo'), w3)"
    by auto
  show ?thesis
    by (simp add: executeTask_in_context [OF cb ex cd] loop executeTask_catch_def initial_result_def
        split: sum.splits)
qed


text \<open>What the loop captures, and what \<^verbatim>\<open>lastOutput\<close> is when the loop ends.\<close>

lemma captured_stop:
  "ok \<or> retries (aider_config spec) \<le> int n \<Longrightarrow>
     captured_in_loop e spec task p ok n le lo w = []"
  by (auto simp: captured_in_loop.simps)

lemma captured_step:
  assumes "int n < retries (aider_config spec)"
    and "attempt e spec task p le lo w = (Inr (ok', le', lo'), w')"
  shows "captured_in_loop e spec task p False n le lo w =
           (case run_process e w (aider_argv spec p) of Inl t \<Rightarrow> [] | Inr r \<Rightarrow> [stdout r]) @
           captured_in_loop e spec task p ok' (Suc n) le' lo' w'"
  using assms by (subst captured_in_loop.simps) simp

lemma retry_loop_last_output:
  assumes "retry_loop e spec task p ok n le lo w = (Inr (ok', n', le', lo'), w')"
  shows "lo' = (if captured_in_loop e spec task p ok n le lo w = [] then lo
                else last (captured_in_loop e spec task p ok n le lo w))"
  using assms
proof (induction e spec task p ok n le lo w rule: retry_loop.induct)
  case (1 e spec task p ok n lastError lastOutput w)
  show ?case
  proof (cases "\<not> ok \<and> int n < retries (aider_config spec)")
    case False
    then have stop: "ok \<or> retries (aider_config spec) \<le> int n" by auto
    from "1.prems" have "lo' = lastOutput" by (simp add: retry_loop_stop [OF stop])
    then show ?thesis by (simp add: captured_stop [OF stop])
  next
    case True
    then have nok: "ok = False" and go: "int n < retries (aider_config spec)" by simp_all
    obtain a w1 where a: "attempt e spec task p lastError lastOutput w = (a, w1)"
      by (cases "attempt e spec task p lastError lastOutput w")
    show ?thesis
    proof (cases a)
      case (Inl m)
      with True a "1.prems" show ?thesis by (simp add: retry_loop.simps)
    next
      case (Inr st)
      obtain ok1 le1 lo1 where st: "st = (ok1, le1, lo1)" by (cases st)
      have a': "attempt e spec task p lastError lastOutput w = (Inr (ok1, le1, lo1), w1)"
        using a Inr st by simp
      have rest: "retry_loop e spec task p ok1 (Suc n) le1 lo1 w1 = (Inr (ok', n', le', lo'), w')"
        using True a' "1.prems" by (simp add: retry_loop.simps)
      let ?c1 = "captured_in_loop e spec task p ok1 (Suc n) le1 lo1 w1"
      have ih: "lo' = (if ?c1 = [] then lo1 else last ?c1)"
        by (rule "1.IH" [OF True a' [symmetric] refl refl refl rest])
      have c: "captured_in_loop e spec task p ok n lastError lastOutput w =
          (case run_process e w (aider_argv spec p) of Inl t \<Rightarrow> [] | Inr r \<Rightarrow> [stdout r]) @ ?c1"
        unfolding nok using go a' by (rule captured_step)
      have first: "lo1 = (case run_process e w (aider_argv spec p) of
                            Inl t \<Rightarrow> lastOutput | Inr r \<Rightarrow> stdout r)"
        using a' by (rule attempt_output)
      show ?thesis
      proof (cases "run_process e w (aider_argv spec p)")
        case (Inl t)
        with c first ih show ?thesis by simp
      next
        case (Inr r)
        with c first ih show ?thesis by simp
      qed
    qed
  qed
qed

text \<open>With an agent whose processes all report and print \<open>out\<close>, every entry is \<open>out\<close>,
  and there is an entry as soon as an attempt is made.\<close>

lemma captured_constant:
  assumes "\<forall>w'. \<exists>r. run_process e w' (aider_argv spec p) = Inr r \<and> stdout r = out"
  shows "set (captured_in_loop e spec task p ok n le lo w) \<subseteq> {out} \<and>
         (\<not> ok \<and> int n < retries (aider_config spec) \<longrightarrow>
            captured_in_loop e spec task p ok n le lo w \<noteq> [])"
  using assms
proof (induction e spec task p ok n le lo w rule: captured_in_loop.induct)
  case (1 e spec task p ok n lastError lastOutput w)
  show ?case
  proof (cases "\<not> ok \<and> int n < retries (aider_config spec)")
    case False
    then have "ok \<or> retries (aider_config spec) \<le> int n" by auto
    then have "captured_in_loop e spec task p ok n lastError lastOutput w = []"
      by (rule captured_stop)
    with False show ?thesis by auto
  next
    case True
    then have nok: "ok = False" and go: "int n < retries (aider_config spec)" by simp_all
    from "1.prems" obtain r where r: "run_process e w (aider_argv spec p) = Inr r"
      and out: "stdout r = out" by blast
    obtain a w1 where a: "attempt e spec task p lastError lastOutput w = (a, w1)"
      by (cases "attempt e spec task p lastError lastOutput w")
    show ?thesis
    proof (cases a)
      case (Inl m)
      with True a r out show ?thesis by (simp add: captured_in_loop.simps)
    next
      case (Inr st)
      obtain ok1 le1 lo1 where st: "st = (ok1, le1, lo1)" by (cases st)
      have a': "attempt e spec task p lastError lastOutput w = (Inr (ok1, le1, lo1), w1)"
        using a Inr st by simp
      have ih: "set (captured_in_loop e spec task p ok1 (Suc n) le1 lo1 w1) \<subseteq> {out}"
        using "1.IH" [OF True a' [symmetric] refl refl refl "1.prems"] by simp
      have "captured_in_loop e spec task p ok n lastError lastOutput w =
          (case run_process e w (aider_argv spec p) of Inl t \<Rightarrow> [] | Inr r \<Rightarrow> [stdout r]) @
          captured_in_loop e spec task p ok1 (Suc n) le1 lo1 w1"
        unfolding nok using go a' by (rule captured_step)
      then have "captured_in_loop e spec task p ok n lastError lastOutput w =
          out # captured_in_loop e spec task p ok1 (Suc n) le1 lo1 w1"
        using r out by simp
      with ih show ?thesis by auto
    qed
  qed
qed


text \<open>
  C8, as the code has it. When the working context is acquired, every thrown value
  carries a message and the restoring \<^verbatim>\<open>chdir\<close> succeeds, the output field is
  present whether the task succeeded or not, and it holds the last captured agent
  stdout: the stdout of the last agent process of the run that reported, or the empty
  string when none reported (in particular when no attempt is made); with an agent that
  prints the same text on every attempt and at least one retry, it is that text. When
  the working context is not acquired, the task fails before any agent invocation and
  the output field is absent.
\<close>

theorem output_presence:
  assumes "\<forall>w' argv. run_process e w' argv \<noteq> Inl None"
    and "\<forall>w'. chdir_error e w' (cwd w) = None"
  shows "(context_acquired e sn w \<longrightarrow>
            output_text (fst (executeTask e spec task sn w)) =
              Some (last_captured (captured_stdouts e spec task sn w)) \<and>
            (retries (aider_config spec) \<le> 0 \<longrightarrow>
               output_text (fst (executeTask e spec task sn w)) = Some []) \<and>
            (0 < retries (aider_config spec) \<and>
             (\<forall>w'. \<exists>r. run_process e w' (aider_argv spec (prepareTaskPrompt spec task)) = Inr r \<and>
                        stdout r = out) \<longrightarrow>
               output_text (fst (executeTask e spec task sn w)) = Some out)) \<and>
         (\<not> context_acquired e sn w \<longrightarrow>
            output_text (fst (executeTask e spec task sn w)) = None \<and>
            \<not> success (fst (executeTask e spec task sn w)) \<and>
            attempts (fst (executeTask e spec task sn w)) = 0 \<and>
            agent_invocations (snd (executeTask e spec task sn w)) = agent_invocations w)"
proof (intro conjI impI)
  assume ctx: "context_acquired e sn w"
  let ?p = "prepareTaskPrompt spec task"
  from executeTask_normal_path [OF assms ctx, of spec task]
  obtain ok n le lo w3 path w1 where
    cb: "createBranch e sn w = (Inr path, w1)"
    and loop: "retry_loop e spec task ?p False 0 [] []
        (w1\<lparr>cwd := join e [cwd w1, path]\<rparr>) = (Inr (ok, n, le, lo), w3)"
    and run: "executeTask e spec task sn w =
        (\<lparr>success = ok, attempts = n,
          error = (if ok then None
             else Some (''Task failed after '' @ string_of_nat n @
                        '' attempts. Last error: '' @ le)),
          output_text = Some lo\<rparr>, w3\<lparr>cwd := cwd w\<rparr>)"
    by blast
  let ?c = "captured_in_loop e spec task ?p False 0 [] [] (w1\<lparr>cwd := join e [cwd w1, path]\<rparr>)"
  have cs: "captured_stdouts e spec task sn w = ?c" by (simp add: captured_stdouts_def cb)
  have lo: "lo = last_captured ?c"
    using retry_loop_last_output [OF loop] by (simp add: last_captured_def)
  show "output_text (fst (executeTask e spec task sn w)) =
          Some (last_captured (captured_stdouts e spec task sn w))"
    by (simp add: run lo cs)
  {
    assume "retries (aider_config spec) \<le> 0"
    then have "?c = []" by (simp add: captured_stop)
    then show "output_text (fst (executeTask e spec task sn w)) = Some []"
      by (simp add: run lo last_captured_def)
  }
  {
    assume h: "0 < retries (aider_config spec) \<and>
       (\<forall>w'. \<exists>r. run_process e w' (aider_argv spec ?p) = Inr r \<and> stdout r = out)"
    then have "set ?c \<subseteq> {out}" and "?c \<noteq> []"
      using captured_constant [of e spec ?p out task False 0 "[]" "[]" "w1\<lparr>cwd := join e [cwd w1, path]\<rparr>"]
      by simp_all
    moreover from \<open>?c \<noteq> []\<close> have "last ?c \<in> set ?c" by (rule last_in_set)
    ultimately have "last ?c = out" by blast
    with \<open>?c \<noteq> []\<close> have "last_captured ?c = out" by (simp add: last_captured_def)
    then show "output_text (fst (executeTask e spec task sn w)) = Some out"
      by (simp add: run lo)
  }
next
  assume nctx: "\<not> context_acquired e sn w"
  from executeTask_no_context [OF nctx, of spec task] obtain m where
    run: "executeTask e spec task sn w =
            (executeTask_catch initial_result m, snd (createBranch e sn w))"
    by blast
  show "output_text (fst (executeTask e spec task sn w)) = None"
    by (simp add: run executeTask_catch_def initial_result_def)
  show "\<not> success (fst (executeTask e spec task sn w))"
    by (simp add: run executeTask_catch_def initial_result_def)
  show "attempts (fst (executeTask e spec task sn w)) = 0"
    by (simp add: run executeTask_catch_def initial_result_def)
  have "agent_invocations (snd (createBranch e sn w)) = agent_invocations w"
    by (rule createBranch_no_agent [of e sn w "fst (createBranch e sn w)"]) simp
  then show "agent_invocations (snd (executeTask e spec task sn w)) = agent_invocations w"
    by (simp add: run)
qed

text \<open>An agent that prints \<open>edited\<close> and exits with 1 on each of two attempts: the task
  fails, and the output field holds \<open>edited\<close>.\<close>

theorem output_presence_witness:
  "context_acquired (plain_env ''yes'' 1 0) ''demo'' world0 \<and>
   \<not> success (fst (executeTask (plain_env ''yes'' 1 0) (spec_with 2 [plain_task]) plain_task
                     ''demo'' world0)) \<and>
   output_text (fst (executeTask (plain_env ''yes'' 1 0) (spec_with 2 [plain_task]) plain_task
                       ''demo'' world0)) = Some ''edited'' \<and>
   last_captured (captured_stdouts (plain_env ''yes'' 1 0) (spec_with 2 [plain_task]) plain_task
                    ''demo'' world0) = ''edited''"
proof -
  let ?e = "plain_env ''yes'' 1 0"
  let ?s = "spec_with 2 [plain_task]"
  have a: "\<forall>w' argv. run_process ?e w' argv \<noteq> Inl None"
    by (simp add: plain_env_def)
  have b: "\<forall>w'. chdir_error ?e w' (cwd world0) = None"
    by (simp add: plain_env_def)
  have c: "context_acquired ?e ''demo'' world0" by (rule plain_env_acquires)
  have "\<forall>w'. \<exists>r. run_process ?e w' (aider_argv ?s (prepareTaskPrompt ?s plain_task)) = Inr r
        \<and> exitCode r \<noteq> 0"
    by (simp add: plain_env_def)
  then have d: "\<not> success (fst (executeTask ?e ?s plain_task ''demo'' world0))"
    using c executeTask_agent_fails by blast
  have f: "0 < retries (aider_config ?s) \<and>
      (\<forall>w'. \<exists>r. run_process ?e w' (aider_argv ?s (prepareTaskPrompt ?s plain_task)) = Inr r \<and>
                 stdout r = ''edited'')"
    by (simp add: spec_with_def plain_env_def)
  from output_presence [OF a b, of "''demo''" ?s plain_task "''edited''"] c f
  have "output_text (fst (executeTask ?e ?s plain_task ''demo'' world0)) =
          Some (last_captured (captured_stdouts ?e ?s plain_task ''demo'' world0))"
    and "output_text (fst (executeTask ?e ?s plain_task ''demo'' world0)) = Some ''edited''"
    by blast+
  with c d show ?thesis by simp
qed

text \<open>Against C8 as stated: when the branch command of the version control system fails,
  the task fails before any agent invocation and its result has no output field.\<close>

theorem output_always_present_counterexample:
  "\<not> success (fst (executeTask (plain_env ''yes'' 0 1) (spec_with 3 [plain_task]) plain_task
                     ''demo'' world0)) \<and>
   attempts (fst (executeTask (plain_env ''yes'' 0 1) (spec_with 3 [plain_task]) plain_task
                    ''demo'' world0)) = 0 \<and>
   agent_invocations (snd (executeTask (plain_env ''yes'' 0 1) (spec_with 3 [plain_task])
                             plain_task ''demo'' world0)) = [] \<and>
   output_text (fst (executeTask (plain_env ''yes'' 0 1) (spec_with 3 [plain_task]) plain_task
                       ''demo'' world0)) = None"
proof -
  have "fst (createBranch (plain_env ''yes'' 0 1) ''demo'' world0) =
          Inl ''Error creating branch and worktree: Failed to create branch: ''"
    by (simp add: createBranch_def detectVC_def existsSync_def create_commands_def spawn_def
        plain_env_def world0_def is_agent_call_def createBranch_catch_def)
  then obtain wb where "createBranch (plain_env ''yes'' 0 1) ''demo'' world0 =
      (Inl ''Error creating branch and worktree: Failed to create branch: '', wb)"
    by (cases "createBranch (plain_env ''yes'' 0 1) ''demo'' world0") auto
  then have nctx: "\<not> context_acquired (plain_env ''yes'' 0 1) ''demo'' world0"
    by (simp add: context_acquired_def)
  from executeTask_no_context [OF nctx, of "spec_with 3 [plain_task]" plain_task] obtain m where
    run: "executeTask (plain_env ''yes'' 0 1) (spec_with 3 [plain_task]) plain_task ''demo'' world0 =
            (executeTask_catch initial_result m, snd (createBranch (plain_env ''yes'' 0 1) ''demo'' world0))"
    by blast
  have "agent_invocations (snd (createBranch (plain_env ''yes'' 0 1) ''demo'' world0)) =
          agent_invocations world0"
    by (rule createBranch_no_agent
          [of "plain_env ''yes'' 0 1" "''demo''" world0
              "fst (createBranch (plain_env ''yes'' 0 1) ''demo'' world0)"]) simp
  moreover have "agent_invocations world0 = []" by (simp add: agent_invocations_def world0_def)
  ultimately show ?thesis
    by (simp add: run executeTask_catch_def initial_result_def)
qed


text \<open>
  C1, where the code leaves the claim. The restoring \<^verbatim>\<open>chdir\<close> stands after the loop
  only; the outer handler returns without it. First run: the launch of the agent throws
  a value without a message, the handler inside the loop raises a TypeError on
  \<^verbatim>\<open>error.message.includes\<close>, and the task returns from the outer handler with the
  process still in the worktree. Second run: the task succeeds, the restoring
  \<^verbatim>\<open>chdir\<close> itself throws, and the task returns a failure with the process still in
  the worktree.
\<close>

theorem cwd_left_in_worktree:
  "cwd world0 = ''/repo'' \<and>
   executeTask throwing_env (spec_with 3 [plain_task]) plain_task ''demo'' world0 =
     (\<lparr>success = False, attempts = 1,
       error = Some (''Error in task execution: '' @ type_error_message),
       output_text = None\<rparr>,
      world0\<lparr>cwd := ''/repo/../worktrees/demo'',
             spawned := [[''jj'', ''branch'', ''create'', ''demo''],
                         [''jj'', ''worktree'', ''add'', ''../worktrees/demo'', ''demo''],
                         aider_argv (spec_with 3 [plain_task])
                           (prepareTaskPrompt (spec_with 3 [plain_task]) plain_task)]\<rparr>) \<and>
   executeTask stuck_env (spec_with 3 [plain_task]) plain_task ''demo'' world0 =
     (\<lparr>success = False, attempts = 1,
       error = Some (''Failed to change directory: ENOENT: no such file or directory, chdir'' @
                     ''. Check if the directory exists and is accessible.''),
       output_text = None\<rparr>,
      world0\<lparr>cwd := ''/repo/../worktrees/demo'',
             spawned := [[''jj'', ''branch'', ''create'', ''demo''],
                         [''jj'', ''worktree'', ''add'', ''../worktrees/demo'', ''demo''],
                         aider_argv (spec_with 3 [plain_task])
                           (prepareTaskPrompt (spec_with 3 [plain_task]) plain_task)]\<rparr>)"
proof (intro conjI)
  show "cwd world0 = ''/repo''" by (simp add: world0_def)
next
  let ?s = "spec_with 3 [plain_task]"
  let ?p = "prepareTaskPrompt ?s plain_task"
  let ?w1 = "world0\<lparr>spawned := spawned world0 @
           [[''jj'', ''branch'', ''create'', ''demo''],
            [''jj'', ''worktree'', ''add'', join throwing_env [''..'', ''worktrees'', ''demo''], ''demo'']]\<rparr>"
  have cb: "createBranch throwing_env ''demo'' world0 =
      (Inr (join throwing_env [''..'', ''worktrees'', ''demo'']), ?w1)"
    by (rule createBranch_ok)
       (simp_all add: existsSync_def throwing_env_def plain_env_def world0_def)
  have j: "join throwing_env = slash_join" by (simp add: throwing_env_def plain_env_def)
  have ex: "existsSync throwing_env ?w1 (join throwing_env [cwd ?w1, join throwing_env [''..'', ''worktrees'', ''demo'']])"
    by (simp add: existsSync_def throwing_env_def plain_env_def world0_def)
  have cd: "chdir_error throwing_env ?w1 (join throwing_env [cwd ?w1, join throwing_env [''..'', ''worktrees'', ''demo'']]) = None"
    by (simp add: throwing_env_def plain_env_def)
  let ?w2 = "?w1\<lparr>cwd := join throwing_env [cwd ?w1, join throwing_env [''..'', ''worktrees'', ''demo'']]\<rparr>"
  have r: "0 < retries (aider_config ?s)" by (simp add: spec_with_def)
  have thrown: "run_process throwing_env ?w2 (aider_argv ?s ?p) = Inl None"
    by (simp add: throwing_env_def)
  have loop: "retry_loop throwing_env ?s plain_task ?p False 0 [] [] ?w2 =
      (Inl (type_error_message, Suc 0), ?w2\<lparr>spawned := spawned ?w2 @ [aider_argv ?s ?p]\<rparr>)"
    by (rule retry_loop_escape [OF _ attempt_thrown_no_message [OF thrown]]) (simp add: r)
  have msg: "executeTask_catch (initial_result\<lparr>attempts := Suc 0\<rparr>) type_error_message =
      \<lparr>success = False, attempts = 1,
       error = Some (''Error in task execution: '' @ type_error_message), output_text = None\<rparr>"
    by (simp add: executeTask_catch_def initial_result_def type_error_message_def)
  have "executeTask throwing_env ?s plain_task ''demo'' world0 =
      (executeTask_catch (initial_result\<lparr>attempts := Suc 0\<rparr>) type_error_message,
       ?w2\<lparr>spawned := spawned ?w2 @ [aider_argv ?s ?p]\<rparr>)"
    by (simp only: executeTask_in_context [OF cb ex cd] loop prod.case sum.case)
  then show "executeTask throwing_env ?s plain_task ''demo'' world0 =
     (\<lparr>success = False, attempts = 1,
       error = Some (''Error in task execution: '' @ type_error_message),
       output_text = None\<rparr>,
      world0\<lparr>cwd := ''/repo/../worktrees/demo'',
             spawned := [[''jj'', ''branch'', ''create'', ''demo''],
                         [''jj'', ''worktree'', ''add'', ''../worktrees/demo'', ''demo''],
                         aider_argv ?s ?p]\<rparr>)"
    by (simp add: msg j world0_def)
next
  let ?s = "spec_with 3 [plain_task]"
  let ?p = "prepareTaskPrompt ?s plain_task"
  let ?w1 = "world0\<lparr>spawned := spawned world0 @
           [[''jj'', ''branch'', ''create'', ''demo''],
            [''jj'', ''worktree'', ''add'', join stuck_env [''..'', ''worktrees'', ''demo''], ''demo'']]\<rparr>"
  have cb: "createBranch stuck_env ''demo'' world0 =
      (Inr (join stuck_env [''..'', ''worktrees'', ''demo'']), ?w1)"
    by (rule createBranch_ok)
       (simp_all add: existsSync_def stuck_env_def plain_env_def world0_def)
  have j: "join stuck_env = slash_join" by (simp add: stuck_env_def plain_env_def)
  have ex: "existsSync stuck_env ?w1 (join stuck_env [cwd ?w1, join stuck_env [''..'', ''worktrees'', ''demo'']])"
    by (simp add: existsSync_def stuck_env_def plain_env_def world0_def)
  have cd: "chdir_error stuck_env ?w1 (join stuck_env [cwd ?w1, join stuck_env [''..'', ''worktrees'', ''demo'']]) = None"
    by (simp add: stuck_env_def plain_env_def world0_def)
  let ?w2 = "?w1\<lparr>cwd := join stuck_env [cwd ?w1, join stuck_env [''..'', ''worktrees'', ''demo'']]\<rparr>"
  let ?w3 = "?w2\<lparr>spawned := spawned ?w2 @ [aider_argv ?s ?p]\<rparr>"
  have r: "0 < retries (aider_config ?s)" by (simp add: spec_with_def)
  have a: "attempt stuck_env ?s plain_task ?p [] [] ?w2 = (Inr (True, [], ''edited''), ?w3)"
    by (simp add: attempt_def spawn_def stuck_env_def plain_env_def plain_task_def)
  have "retry_loop stuck_env ?s plain_task ?p False 0 [] [] ?w2 =
          retry_loop stuck_env ?s plain_task ?p True (Suc 0) [] ''edited'' ?w3"
    by (rule retry_loop_step [OF _ a]) (simp add: r)
  then have loop: "retry_loop stuck_env ?s plain_task ?p False 0 [] [] ?w2 =
      (Inr (True, Suc 0, [], ''edited''), ?w3)"
    by (simp add: retry_loop_stop)
  have bk: "chdir stuck_env (cwd ?w1) ?w3 = Inl ''ENOENT: no such file or directory, chdir''"
    by (simp add: chdir_def stuck_env_def world0_def)
  have msg: "executeTask_catch (initial_result\<lparr>attempts := Suc 0\<rparr>)
        ''ENOENT: no such file or directory, chdir'' =
      \<lparr>success = False, attempts = 1,
       error = Some (''Failed to change directory: ENOENT: no such file or directory, chdir'' @
                     ''. Check if the directory exists and is accessible.''),
       output_text = None\<rparr>"
    by (simp add: executeTask_catch_def initial_result_def)
  have "executeTask stuck_env ?s plain_task ''demo'' world0 =
      (executeTask_catch (initial_result\<lparr>attempts := Suc 0\<rparr>)
         ''ENOENT: no such file or directory, chdir'', ?w3)"
    by (simp only: executeTask_in_context [OF cb ex cd] loop bk prod.case sum.case)
  then show "executeTask stuck_env ?s plain_task ''demo'' world0 =
     (\<lparr>success = False, attempts = 1,
       error = Some (''Failed to change directory: ENOENT: no such file or directory, chdir'' @
                     ''. Check if the directory exists and is accessible.''),
       output_text = None\<rparr>,
      world0\<lparr>cwd := ''/repo/../worktrees/demo'',
             spawned := [[''jj'', ''branch'', ''create'', ''demo''],
                         [''jj'', ''worktree'', ''add'', ''../worktrees/demo'', ''demo''],
                         aider_argv ?s ?p]\<rparr>)"
    by (simp add: msg j world0_def)
qed


section \<open>All tasks\<close>

lemma task_loop_result:
  obtains rs ds ts' w' where "task_loop e spec sn ts w = ((rs, ds, ts'), w')"
  by (cases "task_loop e spec sn ts w") auto

lemma task_loop_done:
  assumes "done_flag t = Some True"
    and "task_loop e spec sn rest w = ((rs, ds, rest'), w')"
  shows "task_loop e spec sn (t # rest) w = ((rs, ds, t # rest'), w')"
  using assms by simp

lemma task_loop_success:
  assumes "done_flag t \<noteq> Some True"
    and "executeTask e spec t sn w = (r, w1)" and "success r"
    and "task_loop e spec sn rest w1 = ((rs, ds, rest'), w')"
  shows "task_loop e spec sn (t # rest) w =
           ((r # rs, execution_data sn t r # ds, t\<lparr>done_flag := Some True\<rparr> # rest'), w')"
  using assms by simp

lemma task_loop_failure:
  assumes "done_flag t \<noteq> Some True"
    and "executeTask e spec t sn w = (r, w1)" and "\<not> success r"
  shows "task_loop e spec sn (t # rest) w = (([r], [execution_data sn t r], t # rest), w1)"
  using assms by simp

declare task_loop.simps(2) [simp del]

text \<open>The loop over a list in two parts: the second part runs from the world the first
  part left, and only if every result of the first part is a success.\<close>

lemma task_loop_append_ok:
  assumes "task_loop e spec sn xs w = ((rs, ds, xs'), w1)"
    and "\<forall>r\<in>set rs. success r"
    and "task_loop e spec sn ys w1 = ((rs2, ds2, ys'), w2)"
  shows "task_loop e spec sn (xs @ ys) w = ((rs @ rs2, ds @ ds2, xs' @ ys'), w2)"
  using assms
proof (induction xs arbitrary: w rs ds xs')
  case Nil
  then show ?case by simp
next
  case (Cons t xs)
  show ?case
  proof (cases "done_flag t = Some True")
    case True
    obtain rs0 ds0 rest0 w0 where rec: "task_loop e spec sn xs w = ((rs0, ds0, rest0), w0)"
      by (rule task_loop_result)
    from task_loop_done [OF True rec] Cons.prems(1)
    have eq: "rs = rs0" "ds = ds0" "xs' = t # rest0" "w1 = w0" by simp_all
    from Cons.IH [OF rec [folded eq(1) eq(2) eq(4)] Cons.prems(2) Cons.prems(3)]
    have "task_loop e spec sn (xs @ ys) w = ((rs @ rs2, ds @ ds2, rest0 @ ys'), w2)" .
    from task_loop_done [OF True this] eq show ?thesis by simp
  next
    case False
    obtain r wa where x: "executeTask e spec t sn w = (r, wa)"
      by (cases "executeTask e spec t sn w")
    show ?thesis
    proof (cases "success r")
      case True
      obtain rs0 ds0 rest0 w0 where rec: "task_loop e spec sn xs wa = ((rs0, ds0, rest0), w0)"
        by (rule task_loop_result)
      from task_loop_success [OF False x True rec] Cons.prems(1)
      have eq: "rs = r # rs0" "ds = execution_data sn t r # ds0"
        "xs' = t\<lparr>done_flag := Some True\<rparr> # rest0" "w1 = w0" by simp_all
      have all0: "\<forall>r\<in>set rs0. success r" using Cons.prems(2) eq(1) by simp
      from Cons.IH [OF rec [folded eq(4)] all0 Cons.prems(3)]
      have "task_loop e spec sn (xs @ ys) wa = ((rs0 @ rs2, ds0 @ ds2, rest0 @ ys'), w2)" .
      from task_loop_success [OF False x True this] eq show ?thesis by simp
    next
      case nok: False
      from task_loop_failure [OF False x nok, of xs] Cons.prems(1) have "rs = [r]" by simp
      with nok Cons.prems(2) show ?thesis by simp
    qed
  qed
qed

lemma task_loop_append_halt:
  assumes "task_loop e spec sn xs w = ((rs, ds, xs'), w1)"
    and "\<not> (\<forall>r\<in>set rs. success r)"
  shows "task_loop e spec sn (xs @ ys) w = ((rs, ds, xs' @ ys), w1)"
  using assms
proof (induction xs arbitrary: w rs ds xs')
  case Nil
  then show ?case by simp
next
  case (Cons t xs)
  show ?case
  proof (cases "done_flag t = Some True")
    case True
    obtain rs0 ds0 rest0 w0 where rec: "task_loop e spec sn xs w = ((rs0, ds0, rest0), w0)"
      by (rule task_loop_result)
    from task_loop_done [OF True rec] Cons.prems(1)
    have eq: "rs = rs0" "ds = ds0" "xs' = t # rest0" "w1 = w0" by simp_all
    from Cons.IH [OF rec [folded eq(1) eq(2) eq(4)] Cons.prems(2)]
    have "task_loop e spec sn (xs @ ys) w = ((rs, ds, rest0 @ ys), w1)" .
    from task_loop_done [OF True this] eq show ?thesis by simp
  next
    case False
    obtain r wa where x: "executeTask e spec t sn w = (r, wa)"
      by (cases "executeTask e spec t sn w")
    show ?thesis
    proof (cases "success r")
      case True
      obtain rs0 ds0 rest0 w0 where rec: "task_loop e spec sn xs wa = ((rs0, ds0, rest0), w0)"
        by (rule task_loop_result)
      from task_loop_success [OF False x True rec] Cons.prems(1)
      have eq: "rs = r # rs0" "ds = execution_data sn t r # ds0"
        "xs' = t\<lparr>done_flag := Some True\<rparr> # rest0" "w1 = w0" by simp_all
      have bad0: "\<not> (\<forall>r\<in>set rs0. success r)" using Cons.prems(2) eq(1) True by simp
      from Cons.IH [OF rec [folded eq(4)] bad0]
      have "task_loop e spec sn (xs @ ys) wa = ((rs0, ds0, rest0 @ ys), w1)" .
      from task_loop_success [OF False x True this] eq show ?thesis by simp
    next
      case nok: False
      from task_loop_failure [OF False x nok, of xs] Cons.prems(1)
      have eq: "rs = [r]" "ds = [execution_data sn t r]" "xs' = t # xs" "w1 = wa" by simp_all
      from task_loop_failure [OF False x nok, of "xs @ ys"] eq show ?thesis by simp
    qed
  qed
qed

lemma kept_or_marked_refl: "list_all2 kept_or_marked xs xs"
  by (rule list_all2_refl) (simp add: kept_or_marked_def)

lemma task_loop_tasks:
  "task_loop e spec sn ts w = ((rs, ds, ts'), w') \<Longrightarrow> list_all2 kept_or_marked ts ts'"
proof (induction ts arbitrary: w rs ds ts' w')
  case Nil
  then show ?case by simp
next
  case (Cons t ts)
  show ?case
  proof (cases "done_flag t = Some True")
    case True
    obtain rs0 ds0 rest0 w0 where rec: "task_loop e spec sn ts w = ((rs0, ds0, rest0), w0)"
      by (rule task_loop_result)
    from task_loop_done [OF True rec] Cons.prems have "ts' = t # rest0" by simp
    moreover have "list_all2 kept_or_marked ts rest0" using rec by (rule Cons.IH)
    moreover have "kept_or_marked t t" by (simp add: kept_or_marked_def)
    ultimately show ?thesis by simp
  next
    case False
    obtain r wa where x: "executeTask e spec t sn w = (r, wa)"
      by (cases "executeTask e spec t sn w")
    show ?thesis
    proof (cases "success r")
      case True
      obtain rs0 ds0 rest0 w0 where rec: "task_loop e spec sn ts wa = ((rs0, ds0, rest0), w0)"
        by (rule task_loop_result)
      from task_loop_success [OF False x True rec] Cons.prems
      have "ts' = t\<lparr>done_flag := Some True\<rparr> # rest0" by simp
      moreover have "list_all2 kept_or_marked ts rest0" using rec by (rule Cons.IH)
      moreover have "kept_or_marked t (t\<lparr>done_flag := Some True\<rparr>)"
        using False by (simp add: kept_or_marked_def)
      ultimately show ?thesis by simp
    next
      case nok: False
      from task_loop_failure [OF False x nok, of ts] Cons.prems have "ts' = t # ts" by simp
      then show ?thesis using kept_or_marked_refl [of "t # ts"] by simp
    qed
  qed
qed

lemma task_loop_skips_done:
  "fst (fst (task_loop e spec sn ts w)) = fst (fst (task_loop e spec sn (filter pending ts) w)) \<and>
   fst (snd (fst (task_loop e spec sn ts w))) =
     fst (snd (fst (task_loop e spec sn (filter pending ts) w))) \<and>
   snd (task_loop e spec sn ts w) = snd (task_loop e spec sn (filter pending ts) w)"
proof (induction ts arbitrary: w)
  case Nil
  show ?case by simp
next
  case (Cons t ts)
  show ?case
  proof (cases "done_flag t = Some True")
    case True
    obtain rs0 ds0 rest0 w0 where rec: "task_loop e spec sn ts w = ((rs0, ds0, rest0), w0)"
      by (rule task_loop_result)
    from task_loop_done [OF True rec] rec Cons.IH [of w] True
    show ?thesis by (simp add: pending_def)
  next
    case False
    obtain r wa where x: "executeTask e spec t sn w = (r, wa)"
      by (cases "executeTask e spec t sn w")
    have p: "filter pending (t # ts) = t # filter pending ts" using False by (simp add: pending_def)
    show ?thesis
    proof (cases "success r")
      case True
      obtain rs0 ds0 rest0 w0 where rec: "task_loop e spec sn ts wa = ((rs0, ds0, rest0), w0)"
        by (rule task_loop_result)
      obtain rs1 ds1 rest1 w1 where
        rec1: "task_loop e spec sn (filter pending ts) wa = ((rs1, ds1, rest1), w1)"
        by (rule task_loop_result)
      from Cons.IH [of wa] rec rec1 have "rs0 = rs1" "ds0 = ds1" "w0 = w1" by simp_all
      with task_loop_success [OF False x True rec] task_loop_success [OF False x True rec1] p
      show ?thesis by simp
    next
      case nok: False
      from task_loop_failure [OF False x nok, of ts]
        task_loop_failure [OF False x nok, of "filter pending ts"] p
      show ?thesis by simp
    qed
  qed
qed

lemma task_loop_counts:
  "task_loop e spec sn ts w = ((rs, ds, ts'), w') \<Longrightarrow>
     length ds = length rs \<and> length rs \<le> length (filter pending ts) \<and>
     (\<forall>r\<in>set (butlast rs). success r)"
proof (induction ts arbitrary: w rs ds ts' w')
  case Nil
  then show ?case by simp
next
  case (Cons t ts)
  show ?case
  proof (cases "done_flag t = Some True")
    case True
    obtain rs0 ds0 rest0 w0 where rec: "task_loop e spec sn ts w = ((rs0, ds0, rest0), w0)"
      by (rule task_loop_result)
    from task_loop_done [OF True rec] Cons.prems have "rs = rs0" "ds = ds0" by simp_all
    moreover have "\<not> pending t" using True by (simp add: pending_def)
    ultimately show ?thesis using Cons.IH [OF rec] by simp
  next
    case False
    then have pt: "pending t" by (simp add: pending_def)
    obtain r wa where x: "executeTask e spec t sn w = (r, wa)"
      by (cases "executeTask e spec t sn w")
    show ?thesis
    proof (cases "success r")
      case True
      obtain rs0 ds0 rest0 w0 where rec: "task_loop e spec sn ts wa = ((rs0, ds0, rest0), w0)"
        by (rule task_loop_result)
      from task_loop_success [OF False x True rec] Cons.prems
      have eq: "rs = r # rs0" "ds = execution_data sn t r # ds0" by simp_all
      from Cons.IH [OF rec] have ih: "length ds0 = length rs0"
        "length rs0 \<le> length (filter pending ts)" "\<forall>r\<in>set (butlast rs0). success r"
        by simp_all
      have "\<forall>x\<in>set (butlast (r # rs0)). success x"
        using True ih(3) by (cases rs0) auto
      with ih eq pt show ?thesis by simp
    next
      case nok: False
      from task_loop_failure [OF False x nok, of ts] Cons.prems
      have "rs = [r]" "ds = [execution_data sn t r]" by simp_all
      with pt show ?thesis by simp
    qed
  qed
qed

lemma executeAllTasks_of_loop:
  assumes "task_loop e spec sn (tasks spec) w = ((rs, ds, ts'), w1)"
  shows "fst (executeAllTasks e spec sn root w) = (rs, spec\<lparr>tasks := ts'\<rparr>) \<and>
         spawned (snd (executeAllTasks e spec sn root w)) = spawned w1 \<and>
         cwd (snd (executeAllTasks e spec sn root w)) = cwd w1"
  using assms by (simp add: executeAllTasks_def import_lessonsLogger_def)

text \<open>The task the loop has reached, after a part of the list whose results are all
  successes.\<close>

lemma task_loop_head:
  obtains rs2 ds2 post' w2 where
    "task_loop e spec sn (t # post) w0 =
       ((rs2, ds2,
         (if pending t \<and> success (fst (executeTask e spec t sn w0))
          then t\<lparr>done_flag := Some True\<rparr> else t) # post'), w2)"
    and "length post' = length post"
proof (cases "done_flag t = Some True")
  case True
  obtain rs0 ds0 rest0 w' where rec: "task_loop e spec sn post w0 = ((rs0, ds0, rest0), w')"
    by (rule task_loop_result)
  have "length rest0 = length post"
    using task_loop_tasks [OF rec] by (simp add: list_all2_lengthD)
  with task_loop_done [OF True rec] True that show ?thesis by (simp add: pending_def)
next
  case False
  obtain r wa where x: "executeTask e spec t sn w0 = (r, wa)"
    by (cases "executeTask e spec t sn w0")
  show ?thesis
  proof (cases "success r")
    case True
    obtain rs0 ds0 rest0 w' where rec: "task_loop e spec sn post wa = ((rs0, ds0, rest0), w')"
      by (rule task_loop_result)
    have "length rest0 = length post"
      using task_loop_tasks [OF rec] by (simp add: list_all2_lengthD)
    with task_loop_success [OF False x True rec] False True x that show ?thesis
      by (simp add: pending_def)
  next
    case nok: False
    from task_loop_failure [OF False x nok, of post] nok x that show ?thesis by simp
  qed
qed

text \<open>
  C2. The loop takes the tasks in list order, each from the world the one before left.
  When the tasks before \<open>t\<close> have all come through (their results are successes), \<open>t\<close>
  is not done and its result is a failure, the run halts there: the results are those of
  the earlier tasks and then the failure, \<open>t\<close> and every later task are as they were,
  and nothing is spawned and the directory is not changed after \<open>t\<close> returned. With
  three retries, the working context acquired and an agent that exits with a code other
  than 0 every time, the result of \<open>t\<close> is such a failure, with three attempts.
\<close>

theorem fail_fast:
  assumes "tasks spec = pre @ t # post"
    and "task_loop e spec sn pre w = ((rs, ds, pre'), w1)"
    and "\<forall>r\<in>set rs. success r"
    and "done_flag t \<noteq> Some True"
  shows "(\<not> success (fst (executeTask e spec t sn w1)) \<longrightarrow>
            fst (executeAllTasks e spec sn root w) =
              (rs @ [fst (executeTask e spec t sn w1)], spec\<lparr>tasks := pre' @ t # post\<rparr>) \<and>
            spawned (snd (executeAllTasks e spec sn root w)) =
              spawned (snd (executeTask e spec t sn w1)) \<and>
            cwd (snd (executeAllTasks e spec sn root w)) =
              cwd (snd (executeTask e spec t sn w1))) \<and>
         (retries (aider_config spec) = 3 \<and>
          (\<forall>w'. \<exists>p. run_process e w' (aider_argv spec (prepareTaskPrompt spec t)) = Inr p \<and>
                     exitCode p \<noteq> 0) \<and>
          context_acquired e sn w1 \<longrightarrow>
            \<not> success (fst (executeTask e spec t sn w1)) \<and>
            attempts (fst (executeTask e spec t sn w1)) = 3)"
proof (intro conjI impI)
  assume nok: "\<not> success (fst (executeTask e spec t sn w1))"
  obtain r w2 where x: "executeTask e spec t sn w1 = (r, w2)"
    by (cases "executeTask e spec t sn w1")
  with nok have nr: "\<not> success r" by simp
  have "task_loop e spec sn (t # post) w1 = (([r], [execution_data sn t r], t # post), w2)"
    using assms(4) x nr by (rule task_loop_failure)
  with assms(2,3)
  have "task_loop e spec sn (pre @ t # post) w =
          ((rs @ [r], ds @ [execution_data sn t r], pre' @ t # post), w2)"
    by (rule task_loop_append_ok)
  then have "task_loop e spec sn (tasks spec) w =
          ((rs @ [r], ds @ [execution_data sn t r], pre' @ t # post), w2)"
    by (simp add: assms(1))
  from executeAllTasks_of_loop [OF this, of root] x
  show "fst (executeAllTasks e spec sn root w) =
          (rs @ [fst (executeTask e spec t sn w1)], spec\<lparr>tasks := pre' @ t # post\<rparr>)"
    and "spawned (snd (executeAllTasks e spec sn root w)) =
          spawned (snd (executeTask e spec t sn w1))"
    and "cwd (snd (executeAllTasks e spec sn root w)) = cwd (snd (executeTask e spec t sn w1))"
    by simp_all
next
  assume a: "retries (aider_config spec) = 3 \<and>
          (\<forall>w'. \<exists>p. run_process e w' (aider_argv spec (prepareTaskPrompt spec t)) = Inr p \<and>
                     exitCode p \<noteq> 0) \<and>
          context_acquired e sn w1"
  then have "attempts (fst (executeTask e spec t sn w1)) = nat (retries (aider_config spec)) \<and>
         \<not> success (fst (executeTask e spec t sn w1))"
    using executeTask_agent_fails [of e spec t sn w1] by blast
  with a show "\<not> success (fst (executeTask e spec t sn w1))"
    and "attempts (fst (executeTask e spec t sn w1)) = 3"
    by simp_all
qed

text \<open>A done task, then a task on which the agent fails three times, then a task that is
  never reached.\<close>

theorem fail_fast_witness:
  "map success (fst (fst (executeAllTasks (plain_env ''yes'' 1 0)
        (spec_with 3 [done_task, plain_task, command_task]) ''demo'' ''/repo'' world0))) = [False] \<and>
   map attempts (fst (fst (executeAllTasks (plain_env ''yes'' 1 0)
        (spec_with 3 [done_task, plain_task, command_task]) ''demo'' ''/repo'' world0))) = [3] \<and>
   tasks (snd (fst (executeAllTasks (plain_env ''yes'' 1 0)
        (spec_with 3 [done_task, plain_task, command_task]) ''demo'' ''/repo'' world0))) =
     [done_task, plain_task, command_task]"
proof -
  let ?e = "plain_env ''yes'' 1 0"
  let ?s = "spec_with 3 [done_task, plain_task, command_task]"
  have 1: "tasks ?s = [done_task] @ plain_task # [command_task]" by (simp add: spec_with_def)
  have 2: "task_loop ?e ?s ''demo'' [done_task] world0 = (([], [], [done_task]), world0)"
    by (simp add: task_loop.simps done_task_def)
  have 3: "\<forall>r\<in>set ([] :: TaskResult list). success r" by simp
  have 4: "done_flag plain_task \<noteq> Some True" by (simp add: plain_task_def)
  have 5: "retries (aider_config ?s) = 3 \<and>
          (\<forall>w'. \<exists>p. run_process ?e w' (aider_argv ?s (prepareTaskPrompt ?s plain_task)) = Inr p \<and>
                     exitCode p \<noteq> 0) \<and>
          context_acquired ?e ''demo'' world0"
    by (simp add: plain_env_acquires) (simp add: spec_with_def plain_env_def)
  from fail_fast [OF 1 2 3 4, of "''/repo''"] 5
  show ?thesis by (simp add: spec_with_def)
qed


text \<open>
  C10. The tasks \<^verbatim>\<open>executeAllTasks\<close> leaves are the input tasks, each one kept as it
  was or, if it was not done, with its flag set to true: no flag goes back to false.
  The task the loop reaches (after tasks whose results are all successes) ends with
  its flag set exactly when it was pending and its result is a success; a task behind
  a failure is left as it was. Tasks that are already done are skipped entirely: the
  results, the lesson records and the world are those of the run over the pending tasks
  alone, one record per result and at most one result per pending task.
\<close>

theorem done_discipline:
  assumes "task_loop e spec sn (tasks spec) w = ((rs, ds, ts'), w')"
  shows "fst (executeAllTasks e spec sn root w) = (rs, spec\<lparr>tasks := ts'\<rparr>) \<and>
         list_all2 kept_or_marked (tasks spec) ts' \<and>
         (\<forall>pre t post rs0 ds0 pre0 w0.
             tasks spec = pre @ t # post \<and>
             task_loop e spec sn pre w = ((rs0, ds0, pre0), w0) \<longrightarrow>
               ts' ! length pre =
                 (if (\<forall>r\<in>set rs0. success r) \<and> pending t \<and>
                     success (fst (executeTask e spec t sn w0))
                  then t\<lparr>done_flag := Some True\<rparr> else t)) \<and>
         fst (fst (task_loop e spec sn (filter pending (tasks spec)) w)) = rs \<and>
         fst (snd (fst (task_loop e spec sn (filter pending (tasks spec)) w))) = ds \<and>
         snd (task_loop e spec sn (filter pending (tasks spec)) w) = w' \<and>
         length ds = length rs \<and>
         length rs \<le> length (filter pending (tasks spec))"
proof (intro conjI allI impI)
  show "fst (executeAllTasks e spec sn root w) = (rs, spec\<lparr>tasks := ts'\<rparr>)"
    using executeAllTasks_of_loop [OF assms] by simp
  show "list_all2 kept_or_marked (tasks spec) ts'" using assms by (rule task_loop_tasks)
  from task_loop_skips_done [of e spec sn "tasks spec" w] assms
  show "fst (fst (task_loop e spec sn (filter pending (tasks spec)) w)) = rs"
    and "fst (snd (fst (task_loop e spec sn (filter pending (tasks spec)) w))) = ds"
    and "snd (task_loop e spec sn (filter pending (tasks spec)) w) = w'"
    by simp_all
  from task_loop_counts [OF assms]
  show "length ds = length rs" and "length rs \<le> length (filter pending (tasks spec))"
    by simp_all
next
  fix pre t post rs0 ds0 pre0 w0
  assume h: "tasks spec = pre @ t # post \<and>
             task_loop e spec sn pre w = ((rs0, ds0, pre0), w0)"
  then have sp: "tasks spec = pre @ t # post"
    and lp: "task_loop e spec sn pre w = ((rs0, ds0, pre0), w0)" by simp_all
  have len: "length pre0 = length pre"
    using task_loop_tasks [OF lp] by (simp add: list_all2_lengthD)
  show "ts' ! length pre =
          (if (\<forall>r\<in>set rs0. success r) \<and> pending t \<and>
              success (fst (executeTask e spec t sn w0))
           then t\<lparr>done_flag := Some True\<rparr> else t)"
  proof (cases "\<forall>r\<in>set rs0. success r")
    case True
    obtain rs2 ds2 post' w2 where
      hd: "task_loop e spec sn (t # post) w0 =
         ((rs2, ds2,
           (if pending t \<and> success (fst (executeTask e spec t sn w0))
            then t\<lparr>done_flag := Some True\<rparr> else t) # post'), w2)"
      by (rule task_loop_head)
    from task_loop_append_ok [OF lp True hd] assms sp
    have "ts' = pre0 @ (if pending t \<and> success (fst (executeTask e spec t sn w0))
            then t\<lparr>done_flag := Some True\<rparr> else t) # post'"
      by simp
    with len True show ?thesis by (simp add: nth_append)
  next
    case False
    from task_loop_append_halt [OF lp False, of "t # post"] assms sp
    have "ts' = pre0 @ t # post" by simp
    with len False show ?thesis by (auto simp: nth_append)
  qed
qed

text \<open>A done task, a task that succeeds at once, and a task whose command check is
  answered \<open>no\<close>: the first is kept, the second is marked, the third is left pending.\<close>

lemma plain_env_acquires_any: "context_acquired (plain_env reply acode 0) sn w"
proof -
  have "createBranch (plain_env reply acode 0) sn w =
     (Inr (join (plain_env reply acode 0) [''..'', ''worktrees'', sn]),
      w\<lparr>spawned := spawned w @
           [[''jj'', ''branch'', ''create'', sn],
            [''jj'', ''worktree'', ''add'', join (plain_env reply acode 0) [''..'', ''worktrees'', sn], sn]]\<rparr>)"
    by (rule createBranch_ok) (simp_all add: existsSync_def plain_env_def split: option.splits)
  then show ?thesis
    by (simp add: context_acquired_def)
       (simp add: plain_env_def existsSync_def split: option.splits)
qed

lemma plain_env_success:
  assumes a: "\<And>w2. \<exists>le lo w3. attempt (plain_env reply acode 0) spec task
                 (prepareTaskPrompt spec task) [] [] w2 = (Inr (ok, le, lo), w3)"
    and one: "retries (aider_config spec) = 1"
  shows "success (fst (executeTask (plain_env reply acode 0) spec task sn w)) = ok"
proof -
  let ?e = "plain_env reply acode 0"
  have msgs: "\<forall>w' argv. run_process ?e w' argv \<noteq> Inl None" by (simp add: plain_env_def)
  have restore: "\<forall>w'. chdir_error ?e w' (cwd w) = None" by (simp add: plain_env_def)
  from executeTask_normal_path [OF msgs restore plain_env_acquires_any, of sn spec task]
  obtain ok' n le lo w3 path w1 where
    loop: "retry_loop ?e spec task (prepareTaskPrompt spec task) False 0 [] []
        (w1\<lparr>cwd := join ?e [cwd w1, path]\<rparr>) = (Inr (ok', n, le, lo), w3)"
    and run: "executeTask ?e spec task sn w =
        (\<lparr>success = ok', attempts = n,
          error = (if ok' then None
             else Some (''Task failed after '' @ string_of_nat n @
                        '' attempts. Last error: '' @ le)),
          output_text = Some lo\<rparr>, w3\<lparr>cwd := cwd w\<rparr>)"
    by blast
  from a [of "w1\<lparr>cwd := join ?e [cwd w1, path]\<rparr>"] obtain le1 lo1 wa where
    at: "attempt ?e spec task (prepareTaskPrompt spec task) [] []
           (w1\<lparr>cwd := join ?e [cwd w1, path]\<rparr>) = (Inr (ok, le1, lo1), wa)"
    by blast
  have "retry_loop ?e spec task (prepareTaskPrompt spec task) False 0 [] []
          (w1\<lparr>cwd := join ?e [cwd w1, path]\<rparr>) =
        retry_loop ?e spec task (prepareTaskPrompt spec task) ok (Suc 0) le1 lo1 wa"
    by (rule retry_loop_step [OF _ at]) (simp add: one)
  also have "\<dots> = (Inr (ok, Suc 0, le1, lo1), wa)"
    by (rule retry_loop_stop) (simp add: one)
  finally have "ok' = ok" using loop by simp
  with run show ?thesis by simp
qed

theorem done_discipline_witness:
  "map done_flag (tasks (snd (fst (executeAllTasks (plain_env ''no'' 0 0)
        (spec_with 1 [done_task, plain_task, command_task]) ''demo'' ''/repo'' world0)))) =
     [Some True, Some True, None] \<and>
   map success (fst (fst (executeAllTasks (plain_env ''no'' 0 0)
        (spec_with 1 [done_task, plain_task, command_task]) ''demo'' ''/repo'' world0))) =
     [True, False]"
proof -
  let ?e = "plain_env ''no'' 0 0"
  let ?s = "spec_with 1 [done_task, plain_task, command_task]"
  have one: "retries (aider_config ?s) = 1" by (simp add: spec_with_def)
  have no: "parse_response ''no'' = eval_fail (''Language model evaluation returned '' @ [CHR 34] @ ''no'' @ [CHR 34])"
    by (simp add: parse_response_def eval_fail_def trim_def toLowerCase_def lower_char_def is_space_def)
  have sp: "split_space ''make check'' = [''make'', ''check'']" by simp
  have p1: "\<And>w. success (fst (executeTask ?e ?s plain_task ''demo'' w)) = True"
    by (rule plain_env_success [OF _ one])
       (simp add: attempt_def spawn_def plain_env_def plain_task_def)
  have p2: "\<And>w. success (fst (executeTask ?e ?s command_task ''demo'' w)) = False"
    by (rule plain_env_success [OF _ one])
       (simp add: attempt_def spawn_def evaluateTask_def evaluateWithLanguageModel_def
          queryLanguageModel_def truthy_def or_default_def no sp eval_fail_def
          plain_env_def command_task_def is_agent_call_def)
  obtain r1 w1 where x1: "executeTask ?e ?s plain_task ''demo'' world0 = (r1, w1)"
    by (cases "executeTask ?e ?s plain_task ''demo'' world0")
  obtain r2 w2 where x2: "executeTask ?e ?s command_task ''demo'' w1 = (r2, w2)"
    by (cases "executeTask ?e ?s command_task ''demo'' w1")
  have s1: "success r1" using p1 [of world0] x1 by simp
  have s2: "\<not> success r2" using p2 [of w1] x2 by simp
  have d0: "done_flag done_task = Some True" by (simp add: done_task_def)
  have d1: "done_flag plain_task \<noteq> Some True" by (simp add: plain_task_def)
  have d2: "done_flag command_task \<noteq> Some True" by (simp add: command_task_def)
  have "task_loop ?e ?s ''demo'' [command_task] w1 =
          (([r2], [execution_data ''demo'' command_task r2], [command_task]), w2)"
    using d2 x2 s2 by (rule task_loop_failure)
  with d1 x1 s1 have "task_loop ?e ?s ''demo'' [plain_task, command_task] world0 =
          ((r1 # [r2],
            execution_data ''demo'' plain_task r1 # [execution_data ''demo'' command_task r2],
            plain_task\<lparr>done_flag := Some True\<rparr> # [command_task]), w2)"
    by (rule task_loop_success)
  with d0 have "task_loop ?e ?s ''demo'' [done_task, plain_task, command_task] world0 =
          ((r1 # [r2],
            execution_data ''demo'' plain_task r1 # [execution_data ''demo'' command_task r2],
            done_task # plain_task\<lparr>done_flag := Some True\<rparr> # [command_task]), w2)"
    by (rule task_loop_done)
  then have l: "task_loop ?e ?s ''demo'' (tasks ?s) world0 =
          ((r1 # [r2],
            execution_data ''demo'' plain_task r1 # [execution_data ''demo'' command_task r2],
            done_task # plain_task\<lparr>done_flag := Some True\<rparr> # [command_task]), w2)"
    by (simp add: spec_with_def)
  from done_discipline [OF l, of "''/repo''"] s1 s2
  show ?thesis by (simp add: done_task_def command_task_def)
qed


section \<open>The lessons log\<close>

lemma createBranch_no_prompts:
  "createBranch e sn w = (r, w') \<Longrightarrow> lm_prompts w' = lm_prompts w"
  by (auto simp: createBranch_def detectVC_def create_commands_def spawn_def Let_def
      split: if_splits prod.splits sum.splits vcs.splits)

lemma attempt_no_prompts:
  assumes "evaluation task = None" and "attempt e spec task p le lo w = (r, w')"
  shows "lm_prompts w' = lm_prompts w"
  using assms
  by (auto simp: attempt_def spawn_def split: sum.splits option.splits if_splits)

lemma retry_loop_no_prompts:
  assumes "evaluation task = None"
    and "retry_loop e spec task p ok n le lo w = (r, w')"
  shows "lm_prompts w' = lm_prompts w"
  using assms
proof (induction e spec task p ok n le lo w rule: retry_loop.induct)
  case (1 e spec task p ok n lastError lastOutput w)
  show ?case
  proof (cases "\<not> ok \<and> int n < retries (aider_config spec)")
    case False
    with "1.prems" have "w' = w" by (simp add: retry_loop.simps)
    then show ?thesis by simp
  next
    case True
    obtain a w1 where a: "attempt e spec task p lastError lastOutput w = (a, w1)"
      by (cases "attempt e spec task p lastError lastOutput w")
    have step: "lm_prompts w1 = lm_prompts w" using "1.prems"(1) a by (rule attempt_no_prompts)
    show ?thesis
    proof (cases a)
      case (Inl m)
      with True a "1.prems" have "w' = w1" by (simp add: retry_loop.simps)
      with step show ?thesis by simp
    next
      case (Inr st)
      obtain ok1 le1 lo1 where st: "st = (ok1, le1, lo1)" by (cases st)
      have a': "attempt e spec task p lastError lastOutput w = (Inr (ok1, le1, lo1), w1)"
        using a Inr st by simp
      have rest: "retry_loop e spec task p ok1 (Suc n) le1 lo1 w1 = (r, w')"
        using True a' "1.prems" by (simp add: retry_loop.simps)
      have "lm_prompts w' = lm_prompts w1"
        by (rule "1.IH" [OF True a' [symmetric] refl refl refl "1.prems"(1) rest])
      with step show ?thesis by simp
    qed
  qed
qed

text \<open>A task changes no file, and without an evaluation it sends no prompt.\<close>

lemma executeTask_quiet:
  "files (snd (executeTask e spec task sn w)) = files w \<and>
   (evaluation task = None \<longrightarrow> lm_prompts (snd (executeTask e spec task sn w)) = lm_prompts w)"
proof -
  obtain b w1 where cb: "createBranch e sn w = (b, w1)" by (cases "createBranch e sn w")
  have f1: "files w1 = files w" using calls_only_createBranch [OF cb] by (rule calls_only_same)
  have p1: "lm_prompts w1 = lm_prompts w" using cb by (rule createBranch_no_prompts)
  show ?thesis
  proof (cases "context_acquired e sn w")
    case False
    from executeTask_no_context [OF False, of spec task] cb f1 p1 show ?thesis by auto
  next
    case True
    with cb obtain path where b: "b = Inr path"
      and ex: "existsSync e w1 (join e [cwd w1, path])"
      and cd: "chdir_error e w1 (join e [cwd w1, path]) = None"
      by (auto simp: context_acquired_def split: sum.splits)
    let ?w2 = "w1\<lparr>cwd := join e [cwd w1, path]\<rparr>"
    obtain x w3 where loop:
      "retry_loop e spec task (prepareTaskPrompt spec task) False 0 [] [] ?w2 = (x, w3)"
      by (cases "retry_loop e spec task (prepareTaskPrompt spec task) False 0 [] [] ?w2")
    have f3: "files w3 = files w"
      using calls_only_same(2) [OF calls_only_retry_loop [OF loop]] f1 by simp
    have p3: "evaluation task = None \<Longrightarrow> lm_prompts w3 = lm_prompts w"
      using retry_loop_no_prompts [OF _ loop] p1 by simp
    have "snd (executeTask e spec task sn w) = w3 \<or>
          (\<exists>d. snd (executeTask e spec task sn w) = w3\<lparr>cwd := d\<rparr>)"
      by (auto simp: executeTask_in_context [OF cb [unfolded b] ex cd] loop chdir_def
          split: sum.splits option.splits prod.splits)
    with f3 p3 show ?thesis by auto
  qed
qed

lemma task_loop_quiet:
  "files (snd (task_loop e spec sn ts w)) = files w \<and>
   ((\<forall>t\<in>set ts. evaluation t = None) \<longrightarrow>
      lm_prompts (snd (task_loop e spec sn ts w)) = lm_prompts w)"
proof (induction ts arbitrary: w)
  case Nil
  show ?case by simp
next
  case (Cons t ts)
  show ?case
  proof (cases "done_flag t = Some True")
    case True
    obtain rs0 ds0 rest0 w0 where rec: "task_loop e spec sn ts w = ((rs0, ds0, rest0), w0)"
      by (rule task_loop_result)
    from task_loop_done [OF True rec] rec Cons.IH [of w] show ?thesis by simp
  next
    case False
    obtain r wa where x: "executeTask e spec t sn w = (r, wa)"
      by (cases "executeTask e spec t sn w")
    from executeTask_quiet [of e spec t sn w] x
    have q: "files wa = files w" "evaluation t = None \<longrightarrow> lm_prompts wa = lm_prompts w"
      by simp_all
    show ?thesis
    proof (cases "success r")
      case True
      obtain rs0 ds0 rest0 w0 where rec: "task_loop e spec sn ts wa = ((rs0, ds0, rest0), w0)"
        by (rule task_loop_result)
      from task_loop_success [OF False x True rec] rec Cons.IH [of wa] q show ?thesis by simp
    next
      case nok: False
      from task_loop_failure [OF False x nok, of ts] q show ?thesis by simp
    qed
  qed
qed

text \<open>The logging step of \<^verbatim>\<open>executeAllTasks\<close> does nothing: the world it returns is the
  one the task loop left.\<close>

lemma executeAllTasks_world:
  "snd (executeAllTasks e spec sn root w) = snd (task_loop e spec sn (tasks spec) w)"
proof -
  obtain rs ds ts' w1 where "task_loop e spec sn (tasks spec) w = ((rs, ds, ts'), w1)"
    by (rule task_loop_result)
  then show ?thesis by (simp add: executeAllTasks_def import_lessonsLogger_def)
qed

text \<open>
  C9, where the code leaves the claim. The claim is about \<^verbatim>\<open>logLessons\<close>: records
  taken in input order, no record's failure ending the batch, the count of appended
  sections returned, three sections and the number 3 for three tasks that succeed at
  the first attempt. The module that holds \<^verbatim>\<open>logLessons\<close> does not load, so the
  function never runs. The run below is that of scenario E: three tasks succeed, each
  at its only attempt; the import throws inside \<^verbatim>\<open>executeAllTasks\<close>; no prompt for a
  lesson is sent, no file is written and no log exists afterwards.
\<close>

theorem lessons_never_logged:
  "import_lessonsLogger = Inl ''Unterminated string literal'' \<and>
   map success (fst (fst (executeAllTasks (plain_env ''Keep the tests small.'' 0 0)
        (spec_with 1 three_tasks) ''demo'' ''/repo'' world0))) = [True, True, True] \<and>
   map done_flag (tasks (snd (fst (executeAllTasks (plain_env ''Keep the tests small.'' 0 0)
        (spec_with 1 three_tasks) ''demo'' ''/repo'' world0)))) =
     [Some True, Some True, Some True] \<and>
   lm_prompts (snd (executeAllTasks (plain_env ''Keep the tests small.'' 0 0)
        (spec_with 1 three_tasks) ''demo'' ''/repo'' world0)) = [] \<and>
   files (snd (executeAllTasks (plain_env ''Keep the tests small.'' 0 0)
        (spec_with 1 three_tasks) ''demo'' ''/repo'' world0)) = files world0 \<and>
   files (snd (executeAllTasks (plain_env ''Keep the tests small.'' 0 0)
        (spec_with 1 three_tasks) ''demo'' ''/repo'' world0)) ''/repo/LESSONS.md'' = None"
proof -
  let ?e = "plain_env ''Keep the tests small.'' 0 0"
  let ?s = "spec_with 1 three_tasks"
  let ?t1 = "plain_task\<lparr>name := ''t1''\<rparr>"
  let ?t2 = "plain_task\<lparr>name := ''t2''\<rparr>"
  have one: "retries (aider_config ?s) = 1" by (simp add: spec_with_def)
  have ok: "\<And>t w. evaluation t = None \<Longrightarrow> success (fst (executeTask ?e ?s t ''demo'' w)) = True"
    by (rule plain_env_success [OF _ one]) (simp add: attempt_def spawn_def plain_env_def)
  have ev: "evaluation ?t1 = None" "evaluation ?t2 = None" "evaluation plain_task = None"
    by (simp_all add: plain_task_def)
  have pend: "done_flag ?t1 \<noteq> Some True" "done_flag ?t2 \<noteq> Some True"
    "done_flag plain_task \<noteq> Some True"
    by (simp_all add: plain_task_def)
  obtain r1 w1 where x1: "executeTask ?e ?s ?t1 ''demo'' world0 = (r1, w1)"
    by (cases "executeTask ?e ?s ?t1 ''demo'' world0")
  obtain r2 w2 where x2: "executeTask ?e ?s ?t2 ''demo'' w1 = (r2, w2)"
    by (cases "executeTask ?e ?s ?t2 ''demo'' w1")
  obtain r3 w3 where x3: "executeTask ?e ?s plain_task ''demo'' w2 = (r3, w3)"
    by (cases "executeTask ?e ?s plain_task ''demo'' w2")
  have s1: "success r1" using ok [OF ev(1), of world0] x1 by simp
  have s2: "success r2" using ok [OF ev(2), of w1] x2 by simp
  have s3: "success r3" using ok [OF ev(3), of w2] x3 by simp
  have "task_loop ?e ?s ''demo'' [] w3 = (([], [], []), w3)" by simp
  with pend(3) x3 s3
  have "task_loop ?e ?s ''demo'' [plain_task] w2 =
      ((r3 # [], execution_data ''demo'' plain_task r3 # [],
        plain_task\<lparr>done_flag := Some True\<rparr> # []), w3)"
    by (rule task_loop_success)
  with pend(2) x2 s2
  have "task_loop ?e ?s ''demo'' [?t2, plain_task] w1 =
      ((r2 # [r3], execution_data ''demo'' ?t2 r2 # [execution_data ''demo'' plain_task r3],
        ?t2\<lparr>done_flag := Some True\<rparr> # [plain_task\<lparr>done_flag := Some True\<rparr>]), w3)"
    by (rule task_loop_success)
  with pend(1) x1 s1
  have "task_loop ?e ?s ''demo'' [?t1, ?t2, plain_task] world0 =
      ((r1 # [r2, r3],
        execution_data ''demo'' ?t1 r1 #
          [execution_data ''demo'' ?t2 r2, execution_data ''demo'' plain_task r3],
        ?t1\<lparr>done_flag := Some True\<rparr> #
          [?t2\<lparr>done_flag := Some True\<rparr>, plain_task\<lparr>done_flag := Some True\<rparr>]), w3)"
    by (rule task_loop_success)
  then have l: "task_loop ?e ?s ''demo'' (tasks ?s) world0 =
      ((r1 # [r2, r3],
        execution_data ''demo'' ?t1 r1 #
          [execution_data ''demo'' ?t2 r2, execution_data ''demo'' plain_task r3],
        ?t1\<lparr>done_flag := Some True\<rparr> #
          [?t2\<lparr>done_flag := Some True\<rparr>, plain_task\<lparr>done_flag := Some True\<rparr>]), w3)"
    by (simp add: spec_with_def three_tasks_def)
  have res: "fst (executeAllTasks ?e ?s ''demo'' ''/repo'' world0) =
      (r1 # [r2, r3],
       ?s\<lparr>tasks := ?t1\<lparr>done_flag := Some True\<rparr> #
          [?t2\<lparr>done_flag := Some True\<rparr>, plain_task\<lparr>done_flag := Some True\<rparr>]\<rparr>)"
    using executeAllTasks_of_loop [OF l, of "''/repo''"] by simp
  have all_plain: "\<forall>t\<in>set (tasks ?s). evaluation t = None"
    by (simp add: spec_with_def three_tasks_def plain_task_def)
  have w: "snd (executeAllTasks ?e ?s ''demo'' ''/repo'' world0) =
             snd (task_loop ?e ?s ''demo'' (tasks ?s) world0)"
    by (rule executeAllTasks_world)
  have fl: "files (snd (executeAllTasks ?e ?s ''demo'' ''/repo'' world0)) = files world0"
    using task_loop_quiet [of ?e ?s "''demo''" "tasks ?s" world0] by (simp add: w)
  have pr: "lm_prompts (snd (executeAllTasks ?e ?s ''demo'' ''/repo'' world0)) = lm_prompts world0"
    using task_loop_quiet [of ?e ?s "''demo''" "tasks ?s" world0] all_plain by (simp add: w)
  show ?thesis
    by (simp add: import_lessonsLogger_def res s1 s2 s3 fl pr) (simp add: world0_def)
qed

end
